theory Spec2Isabelle
  imports Complex_Main "HOL-Library.Log_Nat"
begin

section \<open>PiPredict: the stake pool of \<^verbatim>\<open>server.js\<close>\<close>

text \<open>
  The server keeps two MongoDB collections, \<^verbatim>\<open>User\<close> and \<^verbatim>\<open>Match\<close>, and three
  operations move money: the \<^verbatim>\<open>POST /join-challenge\<close> handler, \<^verbatim>\<open>settleMatch\<close> and
  the \<^verbatim>\<open>POST /subscribe\<close> handler. Each handler is modelled as a function from the
  database before the request to the database after it and the reply. The requests are
  run one after the other: the interleaving of two handlers at their \<^verbatim>\<open>await\<close>
  points is not part of the model, and a database call is taken to succeed (the
  \<^verbatim>\<open>catch\<close> branches that answer 500 are not reached).

  Amounts of Pi are JavaScript \<^verbatim>\<open>Number\<close>s, and the arithmetic on them is that
  of binary64 floating point, with its rounding.
\<close>

subsection \<open>Numbers\<close>

text \<open>
  A finite \<^verbatim>\<open>Number\<close> is modelled by its value, a rational. An arithmetic operation
  computes the exact result and rounds it to the nearest number with a significand of 53
  bits, a tie going to the even significand (\<open>fl\<close>); a decimal literal such as
  \<^verbatim>\<open>0.1\<close> is the rounding of its decimal value, and \<^verbatim>\<open>0.5\<close> is exact. Comparisons
  are exact. Below \<open>2\<^sup>-\<^sup>1\<^sup>0\<^sup>2\<^sup>2\<close> the numbers are the subnormal ones, the multiples of
  \<open>2\<^sup>-\<^sup>1\<^sup>0\<^sup>7\<^sup>4\<close>, and a result is rounded to the nearest of them, to 0 when it is
  nearer to 0. \<^verbatim>\<open>Infinity\<close> and \<^verbatim>\<open>NaN\<close> are not values of the model: it follows
  the code as long as every amount stays below \<open>2\<^sup>1\<^sup>0\<^sup>2\<^sup>4\<close> in magnitude, where binary64
  would overflow. The sign of a zero is not kept: the code never divides by an amount, and
  a zero prints as \<^verbatim>\<open>0\<close> with either sign.
\<close>

type_synonym number = rat

text \<open>The integer nearest to \<open>y\<close>, the even one of two that are equally near.\<close>

definition round_even :: "rat \<Rightarrow> int" where
  "round_even y =
     (let f = \<lfloor>y\<rfloor>; r = y - of_int f
      in if r < 1 / 2 then f else if 1 / 2 < r then f + 1 else if even f then f else f + 1)"

text \<open>
  The binary exponent of \<open>x \<noteq> 0\<close>, the \<open>e\<close> with \<open>2\<^sup>e \<le> |x| < 2\<^sup>e\<^sup>+\<^sup>1\<close>, from the bit
  lengths of numerator and denominator.
\<close>

definition exponent :: "rat \<Rightarrow> int" where
  "exponent x =
     (case quotient_of \<bar>x\<bar> of (a, b) \<Rightarrow>
        (let d = bitlen a - bitlen b in if 2 powi d \<le> \<bar>x\<bar> then d else d - 1))"

text \<open>
  Rounding: \<open>x\<close> is rounded to a multiple of the unit \<open>2\<^sup>e\<^sup>-\<^sup>5\<^sup>2\<close>, in which it lies between
  \<open>2\<^sup>5\<^sup>2\<close> and \<open>2\<^sup>5\<^sup>3\<close> (53 bits), and the unit is never smaller than \<open>2\<^sup>-\<^sup>1\<^sup>0\<^sup>7\<^sup>4\<close>
  (gradual underflow).
\<close>

definition fl :: "rat \<Rightarrow> number" where
  "fl x = (if x = 0 then 0
           else (let u = 2 powi (max (exponent x) (- 1022) - 52)
                 in of_int (round_even (x / u)) * u))"

definition fadd :: "number \<Rightarrow> number \<Rightarrow> number" where
  "fadd x y = fl (x + y)"

definition fsub :: "number \<Rightarrow> number \<Rightarrow> number" where
  "fsub x y = fl (x - y)"

definition fmul :: "number \<Rightarrow> number \<Rightarrow> number" where
  "fmul x y = fl (x * y)"

definition fdiv :: "number \<Rightarrow> number \<Rightarrow> number" where
  "fdiv x y = fl (x / y)"

subsection \<open>Documents\<close>

text \<open>One element of \<^verbatim>\<open>MatchSchema.entries\<close>.\<close>

record entry =
  userId :: string
  prediction :: string
  entryFee :: number

text \<open>
  \<^verbatim>\<open>UserSchema\<close>. The field \<^verbatim>\<open>uid\<close> is the unique key of the collection and is
  the key of the map below. \<^verbatim>\<open>premiumUntil\<close> is a time in milliseconds, absent until
  the first subscription.
\<close>

record user =
  username :: string
  piBalance :: number
  isPremium :: bool
  premiumUntil :: "int option"
  wins :: nat
  referrals :: nat
  discountCodes :: "string list"

text \<open>
  \<^verbatim>\<open>MatchSchema\<close>. Documents are created by the upsert on \<^verbatim>\<open>matchId\<close> only, so
  \<^verbatim>\<open>matchId\<close> is the key of the map below.
\<close>

record match =
  sport :: string
  home :: string
  away :: string
  date :: int
  result :: string
  pool :: number
  entries :: "entry list"

record db =
  User :: "string \<rightharpoonup> user"
  Match :: "string \<rightharpoonup> match"

text \<open>What a handler answers with \<^verbatim>\<open>res.status(code).json({ error: message })\<close>.\<close>

datatype http_error = HttpError nat string

subsection \<open>Join Challenge\<close>

text \<open>
  The body of \<^verbatim>\<open>POST /join-challenge\<close> when its \<^verbatim>\<open>entryFee\<close> is a number or is
  not there; it defaults to 0.5 in the destructuring pattern. Nothing in the handler
  looks at the sign of the fee or at the text of the prediction. A body with any other
  JSON value as its fee follows below (\<open>json_body\<close>).
\<close>

record join_body =
  req_userId :: string
  req_matchId :: string
  req_prediction :: string
  req_entryFee :: "number option"

definition fee_of :: "join_body \<Rightarrow> number" where
  "fee_of body = (case req_entryFee body of None \<Rightarrow> 1 / 2 | Some f \<Rightarrow> f)"

text \<open>
  The handler. Its two saves, of the user and then of the match, are the two updates
  of the database; what it answers is the error or the new \<^verbatim>\<open>pool\<close>.
\<close>

definition join_challenge :: "db \<Rightarrow> join_body \<Rightarrow> db \<times> (http_error + number)" where
  "join_challenge s body =
     (let fee = fee_of body in
      case User s (req_userId body) of
        None \<Rightarrow> (s, Inl (HttpError 403 ''Premium required''))
      | Some u \<Rightarrow>
          if \<not> isPremium u then (s, Inl (HttpError 403 ''Premium required''))
          else
            (case Match s (req_matchId body) of
               None \<Rightarrow> (s, Inl (HttpError 400 ''Invalid match''))
             | Some m \<Rightarrow>
                 if result m \<noteq> ''pending'' then (s, Inl (HttpError 400 ''Invalid match''))
                 else if piBalance u < fee
                   then (s, Inl (HttpError 400 ''Insufficient balance''))
                 else
                   (let u' = u\<lparr>piBalance := fsub (piBalance u) fee\<rparr>;
                        s1 = s\<lparr>User := (User s)(req_userId body \<mapsto> u')\<rparr>;
                        m' = m\<lparr>pool := fadd (pool m) fee,
                               entries := entries m @
                                 [\<lparr>userId = req_userId body,
                                   prediction = req_prediction body,
                                   entryFee = fee\<rparr>]\<rparr>;
                        s2 = s1\<lparr>Match := (Match s1)(req_matchId body \<mapsto> m')\<rparr>
                    in (s2, Inr (pool m')))))"

subsection \<open>Settle Match\<close>

text \<open>
  A score as the sports API delivers it in JSON: a number, \<^verbatim>\<open>null\<close>, or a missing
  field (\<^verbatim>\<open>undefined\<close>). The relational operators convert both sides with ToNumber:
  \<^verbatim>\<open>null\<close> is 0 and \<^verbatim>\<open>undefined\<close> is NaN, which compares false with everything.
\<close>

datatype score = Num int | Null | Undefined

fun to_number :: "score \<Rightarrow> int option" where
  "to_number (Num n) = Some n"
| "to_number Null = Some 0"
| "to_number Undefined = None"

definition js_gt :: "score \<Rightarrow> score \<Rightarrow> bool" where
  "js_gt a b = (case (to_number a, to_number b) of (Some x, Some y) \<Rightarrow> y < x | _ \<Rightarrow> False)"

definition js_lt :: "score \<Rightarrow> score \<Rightarrow> bool" where
  "js_lt a b = (case (to_number a, to_number b) of (Some x, Some y) \<Rightarrow> x < y | _ \<Rightarrow> False)"

record nba_game =
  home_team_score :: score
  visitor_team_score :: score

record goals =
  goals_home :: score
  goals_away :: score

text \<open>
  The two sports APIs, by the id in the request: \<open>None\<close> is a request that fails
  (\<^verbatim>\<open>axios.get\<close> throws), \<open>Some\<close> the body of the answer: the game for the NBA, the
  \<^verbatim>\<open>goals\<close> of each element of \<^verbatim>\<open>response\<close> for football.
\<close>

record apis =
  nba_api :: "string \<Rightarrow> nba_game option"
  football_api :: "string \<Rightarrow> goals list option"

text \<open>\<^verbatim>\<open>String.prototype.split\<close> on a one-character separator.\<close>

fun split :: "char \<Rightarrow> string \<Rightarrow> string list" where
  "split c [] = [[]]"
| "split c (x # xs) =
     (if x = c then [] # split c xs
      else (case split c xs of [] \<Rightarrow> [[x]] | y # ys \<Rightarrow> (x # y) # ys))"

text \<open>
  \<^verbatim>\<open>match.matchId.split('_')[1]\<close> as the template literal of the URL prints it: an
  index out of range is \<^verbatim>\<open>undefined\<close>.
\<close>

definition external_id :: "string \<Rightarrow> string" where
  "external_id matchId =
     (case split CHR ''_'' matchId of _ # y # _ \<Rightarrow> y | _ \<Rightarrow> ''undefined'')"

text \<open>How \<^verbatim>\<open>settleMatch\<close> ends: it returns (nothing), or an exception leaves it.\<close>

datatype exn = TypeError | RequestFailed

datatype completion = Returned | Threw exn

text \<open>The decimal digits of a non-negative integer, as a template literal prints it.\<close>

fun digits :: "nat \<Rightarrow> string" where
  "digits n =
     (if n < 10 then [char_of (48 + n)]
      else digits (n div 10) @ [char_of (48 + n mod 10)])"

text \<open>\<^verbatim>\<open>Get real result\<close>: the outcome of the match, from the API of its sport.\<close>

definition real_result :: "apis \<Rightarrow> string \<Rightarrow> match \<Rightarrow> exn + string" where
  "real_result api matchId m =
     (if sport m = ''nba'' then
        (case nba_api api (external_id matchId) of
           None \<Rightarrow> Inl RequestFailed
         | Some game \<Rightarrow>
             Inr (if js_gt (home_team_score game) (visitor_team_score game)
                  then ''home'' else ''away''))
      else
        (case football_api api (external_id matchId) of
           None \<Rightarrow> Inl RequestFailed
         | Some [] \<Rightarrow> Inl TypeError
         | Some (g # _) \<Rightarrow>
             Inr (if js_gt (goals_home g) (goals_away g) then ''home''
                  else if js_lt (goals_home g) (goals_away g) then ''away''
                  else ''draw'')))"

text \<open>
  The loop \<^verbatim>\<open>for (let w of winners)\<close>: \<open>credit_user\<close> is what one round does to
  the user it loads. Every round saves its user, so an exception (\<^verbatim>\<open>User.findOne\<close>
  finds nobody and \<^verbatim>\<open>user.piBalance\<close> throws) leaves the credits of the rounds before
  it in the database.
\<close>

definition credit_user :: "number \<Rightarrow> user \<Rightarrow> user" where
  "credit_user payoutPerWinner u =
     (let u1 = u\<lparr>piBalance := fadd (piBalance u) payoutPerWinner, wins := wins u + 1\<rparr>;
          discountCode = ''WIN10_'' @ digits (wins u1)
      in u1\<lparr>discountCodes := discountCodes u1 @ [discountCode]\<rparr>)"

fun credit_winners :: "db \<Rightarrow> number \<Rightarrow> entry list \<Rightarrow> db \<times> completion" where
  "credit_winners s payoutPerWinner [] = (s, Returned)"
| "credit_winners s payoutPerWinner (w # ws) =
     (case User s (userId w) of
        None \<Rightarrow> (s, Threw TypeError)
      | Some u \<Rightarrow>
          credit_winners (s\<lparr>User := (User s)(userId w \<mapsto> credit_user payoutPerWinner u)\<rparr>)
            payoutPerWinner ws)"

definition winners_of :: "string \<Rightarrow> match \<Rightarrow> entry list" where
  "winners_of res m = filter (\<lambda>e. prediction e = res) (entries m)"

text \<open>
  \<^verbatim>\<open>match.pool * 0.1\<close> and \<^verbatim>\<open>(match.pool - houseCut) / winners.length\<close>: three
  operations, each rounded.
\<close>

definition houseCut :: "match \<Rightarrow> number" where
  "houseCut m = fmul (pool m) (fl (1 / 10))"

definition payoutPerWinner :: "match \<Rightarrow> entry list \<Rightarrow> number" where
  "payoutPerWinner m winners = fdiv (fsub (pool m) (houseCut m)) (of_nat (length winners))"

definition settleMatch :: "apis \<Rightarrow> db \<Rightarrow> string \<Rightarrow> db \<times> completion" where
  "settleMatch api s matchId =
     (case Match s matchId of
        None \<Rightarrow> (s, Threw TypeError)
      | Some m \<Rightarrow>
          if result m \<noteq> ''pending'' then (s, Returned)
          else
            (case real_result api matchId m of
               Inl e \<Rightarrow> (s, Threw e)
             | Inr res \<Rightarrow>
                 (let m1 = m\<lparr>result := res\<rparr>;
                      s1 = s\<lparr>Match := (Match s)(matchId \<mapsto> m1)\<rparr>;
                      winners = winners_of res m1
                  in if length winners = 0 then (s1, Returned)
                     else credit_winners s1 (payoutPerWinner m1 winners) winners)))"

subsection \<open>Join Challenge: the fee as JSON\<close>

text \<open>
  \<^verbatim>\<open>req.body\<close> is parsed JSON and the handler reads \<^verbatim>\<open>entryFee\<close> from it unchecked:
  it may be missing, a number, a string, or something else (\<open>JOther\<close>: \<^verbatim>\<open>true\<close>,
  \<^verbatim>\<open>false\<close>, \<^verbatim>\<open>null\<close>, an array or an object).
\<close>

datatype fee_value = Absent | JNumber number | JString string | JOther

record json_body =
  json_userId :: string
  json_matchId :: string
  json_prediction :: string
  json_entryFee :: fee_value

text \<open>
  The conversions between numbers and strings, for integers in decimal digits.
  \<^verbatim>\<open>Number.prototype.toString\<close> of an integer below \<open>10\<^sup>2\<^sup>1\<close> in magnitude is its
  digits, with a minus sign when it is negative. A string of digits, with or without a
  minus sign before them, converts to the number nearest to the integer it names; strings
  of up to 20 characters are read. On anything else the two functions answer \<open>None\<close>:
  JavaScript converts more (longer strings, fractions, exponents, blanks, hexadecimal
  digits), and that part is not modelled.
\<close>

definition int_string :: "int \<Rightarrow> string" where
  "int_string i = (if i < 0 then CHR ''-'' # digits (nat (- i)) else digits (nat i))"

definition number_string :: "number \<Rightarrow> string option" where
  "number_string x =
     (if x = of_int \<lfloor>x\<rfloor> \<and> \<bar>x\<bar> < 10 ^ 21 then Some (int_string \<lfloor>x\<rfloor>) else None)"

fun digits_value :: "nat \<Rightarrow> string \<Rightarrow> nat option" where
  "digits_value acc [] = Some acc"
| "digits_value acc (c # cs) =
     (if 48 \<le> (of_char c :: nat) \<and> (of_char c :: nat) \<le> 57
      then digits_value (10 * acc + (of_char c - 48)) cs else None)"

definition string_int :: "string \<Rightarrow> int option" where
  "string_int str =
     (case str of
        [] \<Rightarrow> None
      | c # cs \<Rightarrow>
          if c = CHR ''-''
          then (if cs = [] then None else map_option (\<lambda>n. - int n) (digits_value 0 cs))
          else map_option int (digits_value 0 str))"

definition string_number :: "string \<Rightarrow> number option" where
  "string_number str =
     (if length str \<le> 20 then map_option (\<lambda>i. fl (of_int i)) (string_int str) else None)"

text \<open>
  Lines 95 to 103 with a string as the fee. The comparison and the subtraction convert
  the string to a number, but \<^verbatim>\<open>match.pool += entryFee\<close> is then the concatenation
  of the pool, printed, with the string, and the schema casts the result back to a number
  when it is assigned; the fee pushed with the entry is cast to a number as well. Where
  one of the conversions is outside the part that is modelled the result is \<open>beyond\<close>,
  a parameter.
\<close>

definition join_string ::
  "(db \<Rightarrow> json_body \<Rightarrow> db \<times> (http_error + number)) \<Rightarrow> db \<Rightarrow> json_body \<Rightarrow> user \<Rightarrow> match \<Rightarrow> string
     \<Rightarrow> db \<times> (http_error + number)" where
  "join_string beyond s body u m str =
     (case string_number str of
        None \<Rightarrow> beyond s body
      | Some fee \<Rightarrow>
          if piBalance u < fee then (s, Inl (HttpError 400 ''Insufficient balance''))
          else
            (case number_string (pool m) of
               None \<Rightarrow> beyond s body
             | Some printed \<Rightarrow>
                 (case string_number (printed @ str) of
                    None \<Rightarrow> beyond s body
                  | Some cast \<Rightarrow>
                      (let u' = u\<lparr>piBalance := fsub (piBalance u) fee\<rparr>;
                           s1 = s\<lparr>User := (User s)(json_userId body \<mapsto> u')\<rparr>;
                           m' = m\<lparr>pool := cast,
                                  entries := entries m @
                                    [\<lparr>userId = json_userId body,
                                      prediction = json_prediction body,
                                      entryFee = fee\<rparr>]\<rparr>;
                           s2 = s1\<lparr>Match := (Match s1)(json_matchId body \<mapsto> m')\<rparr>
                       in (s2, Inr (pool m'))))))"

text \<open>
  The handler on any body. With a number for a fee, or none, it is \<open>join_challenge\<close>.
  Otherwise the two checks of lines 88 and 91 come first, as they do not look at the fee,
  and a fee that is neither a number nor a string is left to \<open>beyond\<close>: what the
  JavaScript conversions and the casts of the schema make of it is not modelled.
\<close>

definition post_join_challenge ::
  "(db \<Rightarrow> json_body \<Rightarrow> db \<times> (http_error + number)) \<Rightarrow> db \<Rightarrow> json_body
     \<Rightarrow> db \<times> (http_error + number)" where
  "post_join_challenge beyond s body =
     (case json_entryFee body of
        Absent \<Rightarrow>
          join_challenge s
            \<lparr>req_userId = json_userId body, req_matchId = json_matchId body,
             req_prediction = json_prediction body, req_entryFee = None\<rparr>
      | JNumber fee \<Rightarrow>
          join_challenge s
            \<lparr>req_userId = json_userId body, req_matchId = json_matchId body,
             req_prediction = json_prediction body, req_entryFee = Some fee\<rparr>
      | other \<Rightarrow>
          (case User s (json_userId body) of
             None \<Rightarrow> (s, Inl (HttpError 403 ''Premium required''))
           | Some u \<Rightarrow>
               if \<not> isPremium u then (s, Inl (HttpError 403 ''Premium required''))
               else
                 (case Match s (json_matchId body) of
                    None \<Rightarrow> (s, Inl (HttpError 400 ''Invalid match''))
                  | Some m \<Rightarrow>
                      if result m \<noteq> ''pending''
                      then (s, Inl (HttpError 400 ''Invalid match''))
                      else (case other of
                              JString str \<Rightarrow> join_string beyond s body u m str
                            | _ \<Rightarrow> beyond s body))))"

subsection \<open>Subscribe\<close>

record subscribe_body =
  sub_userId :: string
  sub_discountCode :: "string option"

text \<open>\<^verbatim>\<open>String.prototype.startsWith\<close>.\<close>

definition startsWith :: "string \<Rightarrow> string \<Rightarrow> bool" where
  "startsWith s p = (take (length p) s = p)"

text \<open>
  \<^verbatim>\<open>discountCode\<close> is truthy when it is present and not the empty string. \<open>now\<close> is
  \<^verbatim>\<open>Date.now()\<close>.
\<close>

definition subscribe_amount :: "string option \<Rightarrow> number" where
  "subscribe_amount discountCode =
     (case discountCode of
        None \<Rightarrow> 1 / 2
      | Some c \<Rightarrow> if c \<noteq> [] \<and> startsWith c ''WIN10_'' then fl (45 / 100) else 1 / 2)"

definition subscribe :: "int \<Rightarrow> db \<Rightarrow> subscribe_body \<Rightarrow> db \<times> (http_error + int)" where
  "subscribe now s body =
     (let amount = subscribe_amount (sub_discountCode body) in
      case User s (sub_userId body) of
        None \<Rightarrow> (s, Inl (HttpError 404 ''User not found''))
      | Some u \<Rightarrow>
          if piBalance u < amount then (s, Inl (HttpError 400 ''Insufficient balance''))
          else
            (let until = now + 30 * 24 * 60 * 60 * 1000;
                 u1 = u\<lparr>piBalance := fsub (piBalance u) amount,
                        isPremium := True,
                        premiumUntil := Some until\<rparr>;
                 u2 = (case sub_discountCode body of
                         None \<Rightarrow> u1
                       | Some c \<Rightarrow>
                           if c = [] then u1
                           else u1\<lparr>discountCodes := filter (\<lambda>x. x \<noteq> c) (discountCodes u1)\<rparr>)
             in (s\<lparr>User := (User s)(sub_userId body \<mapsto> u2)\<rparr>, Inr until)))"

subsection \<open>Requests and invariants\<close>

text \<open>The three checks of the join handler, each as a predicate of the request.\<close>

definition eligible :: "db \<Rightarrow> join_body \<Rightarrow> bool" where
  "eligible s body = (case User s (req_userId body) of None \<Rightarrow> False | Some u \<Rightarrow> isPremium u)"

definition open_pool :: "db \<Rightarrow> join_body \<Rightarrow> bool" where
  "open_pool s body =
     (case Match s (req_matchId body) of None \<Rightarrow> False | Some m \<Rightarrow> result m = ''pending'')"

definition affordable :: "db \<Rightarrow> join_body \<Rightarrow> bool" where
  "affordable s body =
     (case User s (req_userId body) of None \<Rightarrow> False | Some u \<Rightarrow> \<not> piBalance u < fee_of body)"

text \<open>A sequence of join requests, served one after the other.\<close>

fun joins :: "db \<Rightarrow> join_body list \<Rightarrow> db" where
  "joins s [] = s"
| "joins s (b # bs) = joins (fst (join_challenge s b)) bs"

text \<open>
  No balance is negative; the pool of every match is what adding the fees of its entries
  to 0 gives, one after the other in the order of the entries, each addition rounded.
\<close>

definition balances_ok :: "db \<Rightarrow> bool" where
  "balances_ok s = (\<forall>uid u. User s uid = Some u \<longrightarrow> 0 \<le> piBalance u)"

definition pools_ok :: "db \<Rightarrow> bool" where
  "pools_ok s =
     (\<forall>mid m. Match s mid = Some m \<longrightarrow> pool m = foldl fadd 0 (map entryFee (entries m)))"

text \<open>
  A sequence of requests with any fees, and the requests whose fee is a number or missing.
\<close>

fun post_joins ::
  "(db \<Rightarrow> json_body \<Rightarrow> db \<times> (http_error + number)) \<Rightarrow> db \<Rightarrow> json_body list \<Rightarrow> db" where
  "post_joins beyond s [] = s"
| "post_joins beyond s (b # bs) = post_joins beyond (fst (post_join_challenge beyond s b)) bs"

definition numeric_fee :: "json_body \<Rightarrow> bool" where
  "numeric_fee body =
     (case json_entryFee body of Absent \<Rightarrow> True | JNumber fee \<Rightarrow> True | _ \<Rightarrow> False)"

text \<open>A join request that names its fee, and a subscription that names a code.\<close>

definition join_req :: "string \<Rightarrow> string \<Rightarrow> string \<Rightarrow> number \<Rightarrow> join_body" where
  "join_req uid mid p fee =
     \<lparr>req_userId = uid, req_matchId = mid, req_prediction = p, req_entryFee = Some fee\<rparr>"

definition json_req :: "string \<Rightarrow> string \<Rightarrow> string \<Rightarrow> fee_value \<Rightarrow> json_body" where
  "json_req uid mid p fee =
     \<lparr>json_userId = uid, json_matchId = mid, json_prediction = p, json_entryFee = fee\<rparr>"

definition redeem :: "string \<Rightarrow> string \<Rightarrow> subscribe_body" where
  "redeem uid code = \<lparr>sub_userId = uid, sub_discountCode = Some code\<rparr>"

subsection \<open>The payout rule of the specification\<close>

text \<open>
  The specification pays \<open>floor(distributable / winnerCount)\<close> "to the ledger's smallest
  unit". This is that rounding, written from the specification's words for comparison with
  \<open>payoutPerWinner\<close>: the largest multiple of the unit that is not above \<open>x\<close>. The
  specification writes its amounts with two decimals, a unit of one hundredth.
\<close>

definition floor_to_unit :: "rat \<Rightarrow> rat \<Rightarrow> rat" where
  "floor_to_unit unit x = of_int \<lfloor>x / unit\<rfloor> * unit"

subsection \<open>Example data\<close>

text \<open>
  A user document with the schema's defaults, an entry, and a match with the pool that
  the joins of its entries have added up.
\<close>

definition member :: "string \<Rightarrow> number \<Rightarrow> bool \<Rightarrow> user" where
  "member name balance premium =
     \<lparr>username = name, piBalance = balance, isPremium = premium, premiumUntil = None,
      wins = 0, referrals = 0, discountCodes = []\<rparr>"

definition stake :: "string \<Rightarrow> string \<Rightarrow> number \<Rightarrow> entry" where
  "stake uid p fee = \<lparr>userId = uid, prediction = p, entryFee = fee\<rparr>"

definition fixture :: "string \<Rightarrow> string \<Rightarrow> entry list \<Rightarrow> match" where
  "fixture sp res es =
     \<lparr>sport = sp, home = ''Home'', away = ''Away'', date = 0, result = res,
      pool = foldl fadd 0 (map entryFee es), entries = es\<rparr>"

text \<open>Three premium users and one who is not, 10 Pi each.\<close>

definition members :: "string \<rightharpoonup> user" where
  "members = [''alice'' \<mapsto> member ''alice'' 10 True, ''bob'' \<mapsto> member ''bob'' 10 True,
              ''carol'' \<mapsto> member ''carol'' 10 True, ''dave'' \<mapsto> member ''dave'' 10 False]"

text \<open>The APIs when NBA game 1 and football fixture 7 ended \<open>h\<close> to \<open>v\<close>.\<close>

definition scores :: "int \<Rightarrow> int \<Rightarrow> apis" where
  "scores h v =
     \<lparr>nba_api = (\<lambda>i. if i = ''1''
                     then Some \<lparr>home_team_score = Num h, visitor_team_score = Num v\<rparr>
                     else None),
      football_api = (\<lambda>i. if i = ''7''
                          then Some [\<lparr>goals_home = Num h, goals_away = Num v\<rparr>]
                          else None)\<rparr>"

text \<open>
  Nobody has joined yet: an NBA game that is pending, and a football fixture that was
  settled as a home win.
\<close>

definition fresh :: db where
  "fresh = \<lparr>User = members,
            Match = [''nba_1'' \<mapsto> fixture ''nba'' ''pending'' [],
                     ''fb_7'' \<mapsto> fixture ''football'' ''home'' []]\<rparr>"

definition two_sides :: db where
  "two_sides =
     \<lparr>User = members,
      Match = [''nba_1'' \<mapsto> fixture ''nba'' ''pending''
                 [stake ''alice'' ''home'' 5, stake ''bob'' ''away'' 5]]\<rparr>"

text \<open>A football fixture with one entry on each side.\<close>

definition derby :: db where
  "derby =
     \<lparr>User = members,
      Match = [''fb_7'' \<mapsto> fixture ''football'' ''pending''
                 [stake ''alice'' ''home'' 5, stake ''bob'' ''away'' 5]]\<rparr>"

definition three_winners :: db where
  "three_winners =
     \<lparr>User = members,
      Match = [''nba_1'' \<mapsto> fixture ''nba'' ''pending''
                 [stake ''alice'' ''home'' (5 / 2), stake ''bob'' ''home'' (5 / 2),
                  stake ''carol'' ''home'' (5 / 2), stake ''alice'' ''away'' (5 / 2)]]\<rparr>"

text \<open>Six entries at the default fee of 0.5, all on the home team.\<close>

definition six_halves :: match where
  "six_halves =
     fixture ''nba'' ''pending''
       [stake ''alice'' ''home'' (1 / 2), stake ''bob'' ''home'' (1 / 2),
        stake ''carol'' ''home'' (1 / 2), stake ''alice'' ''home'' (1 / 2),
        stake ''bob'' ''home'' (1 / 2), stake ''carol'' ''home'' (1 / 2)]"

definition six_winners :: db where
  "six_winners = \<lparr>User = members, Match = [''nba_1'' \<mapsto> six_halves]\<rparr>"

definition seven_winners :: db where
  "seven_winners =
     \<lparr>User = members,
      Match = [''nba_1'' \<mapsto> fixture ''nba'' ''pending''
                 (stake ''alice'' ''home'' (5 / 4) # replicate 6 (stake ''bob'' ''home'' (5 / 4))
                    @ [stake ''carol'' ''away'' (5 / 4)])]\<rparr>"

text \<open>
  The smallest positive number, \<^verbatim>\<open>5e-324\<close>, and a match with two entries on the home
  team, one with this fee and one with twice this fee (\<^verbatim>\<open>1e-323\<close>).
\<close>

definition denorm_min :: number where
  "denorm_min = 2 powi (- 1074)"

definition tiny_pool :: match where
  "tiny_pool =
     fixture ''nba'' ''pending''
       [stake ''alice'' ''home'' denorm_min, stake ''bob'' ''home'' (2 * denorm_min)]"

text \<open>A value for \<open>beyond\<close> in the examples below, none of which reaches it.\<close>

definition refused :: "db \<Rightarrow> json_body \<Rightarrow> db \<times> (http_error + number)" where
  "refused s body = (s, Inl (HttpError 500 []))"

section \<open>Properties\<close>

declare digits.simps [simp del]

lemmas example_defs = member_def stake_def fixture_def members_def scores_def

lemmas eval_defs = settleMatch_def real_result_def external_id_def winners_of_def
  js_gt_def js_lt_def Let_def

lemmas join_defs = join_challenge_def fee_of_def join_req_def Let_def

subsection \<open>Rounding\<close>

lemma round_even_error: "\<bar>of_int (round_even y) - y\<bar> \<le> 1 / 2"
proof -
  have "of_int \<lfloor>y\<rfloor> \<le> y" "y < of_int \<lfloor>y\<rfloor> + 1" by linarith+
  then show ?thesis by (auto simp: round_even_def Let_def)
qed

lemma round_even_nonneg: "0 \<le> y \<Longrightarrow> 0 \<le> round_even y"
  by (auto simp: round_even_def Let_def)

lemma bitlen_le_pow: "0 < a \<Longrightarrow> (2::rat) powi (bitlen a - 1) \<le> of_int a"
proof -
  assume a: "0 < a"
  then have "1 \<le> bitlen a" by (auto simp: bitlen_alt_def)
  then have "(2::rat) powi (bitlen a - 1) = 2 ^ nat (bitlen a - 1)"
    by (simp add: power_int_def)
  also have "\<dots> = of_int (2 ^ nat (bitlen a - 1))" by simp
  also have "\<dots> \<le> of_int a" using bitlen_bounds [OF a] by (subst of_int_le_iff) simp
  finally show ?thesis .
qed

lemma bitlen_less_pow: "0 < a \<Longrightarrow> of_int a < (2::rat) powi (bitlen a)"
proof -
  assume a: "0 < a"
  have "0 \<le> bitlen a" by (rule bitlen_nonneg)
  then have "(2::rat) powi (bitlen a) = of_int (2 ^ nat (bitlen a))"
    by (simp add: power_int_def)
  moreover have "(of_int a :: rat) < of_int (2 ^ nat (bitlen a))"
    using bitlen_bounds [OF a] by (subst of_int_less_iff) simp
  ultimately show ?thesis by simp
qed

lemma exponent_bounds:
  assumes "x \<noteq> 0"
  shows "2 powi (exponent x) \<le> \<bar>x\<bar>" and "\<bar>x\<bar> < 2 powi (exponent x + 1)"
proof -
  obtain a b where q: "quotient_of \<bar>x\<bar> = (a, b)" by (cases "quotient_of \<bar>x\<bar>")
  then have b: "0 < b" by (rule quotient_of_denom_pos)
  from q have x: "\<bar>x\<bar> = of_int a / of_int b" by (rule quotient_of_div)
  from assms have "0 < \<bar>x\<bar>" by simp
  with x b have a: "0 < a" by (simp add: zero_less_divide_iff)
  let ?d = "bitlen a - bitlen b"
  have ex: "exponent x = (if 2 powi ?d \<le> \<bar>x\<bar> then ?d else ?d - 1)"
    by (simp add: exponent_def q Let_def)
  have bpos: "(0::rat) < of_int b" using b by simp
  have up: "\<bar>x\<bar> < 2 powi (?d + 1)"
  proof -
    have "of_int a < (2::rat) powi (bitlen a)" by (rule bitlen_less_pow [OF a])
    moreover have "(2::rat) powi (bitlen b - 1) \<le> of_int b" by (rule bitlen_le_pow [OF b])
    moreover have "(0::rat) < 2 powi (bitlen b - 1)" by simp
    ultimately have "of_int a / of_int b < (2::rat) powi (bitlen a) / 2 powi (bitlen b - 1)"
      using a by (intro frac_less) simp_all
    also have "\<dots> = 2 powi (?d + 1)"
      by (simp add: power_int_diff [symmetric] algebra_simps)
    finally show ?thesis by (simp add: x)
  qed
  have low: "2 powi (?d - 1) \<le> \<bar>x\<bar>"
  proof -
    have "(2::rat) powi (bitlen a - 1) \<le> of_int a" by (rule bitlen_le_pow [OF a])
    moreover have "of_int b < (2::rat) powi (bitlen b)" by (rule bitlen_less_pow [OF b])
    moreover have "(0::rat) < 2 powi (bitlen a - 1)" by simp
    ultimately have "(2::rat) powi (bitlen a - 1) / 2 powi (bitlen b) \<le> of_int a / of_int b"
      using bpos a by (intro frac_le) simp_all
    moreover have "(2::rat) powi (bitlen a - 1) / 2 powi (bitlen b) = 2 powi (?d - 1)"
      by (simp add: power_int_diff [symmetric] algebra_simps)
    ultimately show ?thesis by (simp add: x)
  qed
  show "2 powi (exponent x) \<le> \<bar>x\<bar>" using low by (simp add: ex)
  show "\<bar>x\<bar> < 2 powi (exponent x + 1)"
  proof (cases "2 powi ?d \<le> \<bar>x\<bar>")
    case True
    with up show ?thesis by (simp add: ex)
  next
    case False
    then show ?thesis by (simp add: ex)
  qed
qed

lemma fl_nonneg: "0 \<le> x \<Longrightarrow> 0 \<le> fl x"
  by (simp add: fl_def Let_def round_even_nonneg)

lemma exponent_normal:
  assumes "2 powi (- 1022) \<le> \<bar>x\<bar>"
  shows "- 1022 \<le> exponent x"
proof (rule ccontr)
  assume "\<not> - 1022 \<le> exponent x"
  then have "exponent x + 1 \<le> - 1022" by simp
  then have "(2::rat) powi (exponent x + 1) \<le> 2 powi (- 1022)"
    by (intro power_int_increasing) simp_all
  moreover from assms have "x \<noteq> 0"
    using zero_less_power_int [of "2::rat" "- 1022"] by auto
  then have "\<bar>x\<bar> < 2 powi (exponent x + 1)" by (rule exponent_bounds(2))
  ultimately show False using assms by linarith
qed

lemma fl_error:
  assumes "2 powi (- 1022) \<le> \<bar>x\<bar>"
  shows "\<bar>fl x - x\<bar> \<le> \<bar>x\<bar> / 2 ^ 53"
proof -
  from assms have nz: "x \<noteq> 0"
    using zero_less_power_int [of "2::rat" "- 1022"] by auto
  define u :: rat where "u = 2 powi (exponent x - 52)"
  have u: "0 < u" by (simp add: u_def)
  have "max (exponent x) (- 1022) = exponent x"
    using exponent_normal [OF assms] by simp
  then have fl: "fl x = of_int (round_even (x / u)) * u"
    using nz by (simp add: fl_def Let_def u_def)
  have "fl x - x = (of_int (round_even (x / u)) - x / u) * u"
    using u by (simp add: fl algebra_simps)
  then have "\<bar>fl x - x\<bar> = \<bar>of_int (round_even (x / u)) - x / u\<bar> * u"
    using u by (simp add: abs_mult)
  also have "\<dots> \<le> 1 / 2 * u"
    using round_even_error [of "x / u"] u by (intro mult_right_mono) simp_all
  also have "\<dots> = 2 powi (exponent x) / 2 ^ 53"
  proof -
    have "u = 2 powi (exponent x) / 2 powi 52"
      unfolding u_def by (rule power_int_diff) simp
    then show ?thesis by simp
  qed
  also have "\<dots> \<le> \<bar>x\<bar> / 2 ^ 53"
    using exponent_bounds(1) [OF nz] by (simp add: divide_right_mono)
  finally show ?thesis .
qed

text \<open>
  What the three roundings of the house cut and the payout can add up to: splitting \<open>P\<close>
  into a tenth and \<open>n\<close> equal shares of the rest gives back \<open>P\<close> up to one part in
  \<open>2\<^sup>5\<^sup>2\<close>, when \<open>P\<close> is large enough for none of the three results to be subnormal.
\<close>

lemma tenth: "fl (1 / 10) = 3602879701896397 / 36028797018963968"
  by code_simp

lemma rounded_split_error:
  fixes P :: rat and n :: nat
  assumes n: "0 < n" and big: "of_nat n * 2 powi (- 1018) \<le> \<bar>P\<bar>"
  defines "hc \<equiv> fl (P * fl (1 / 10))"
  defines "d \<equiv> fl (P - hc)"
  defines "p \<equiv> fl (d / of_nat n)"
  shows "\<bar>hc + of_nat n * p - P\<bar> \<le> \<bar>P\<bar> / 2 ^ 52"
proof -
  define eps :: rat where "eps = 1 / 2 ^ 53"
  define c :: rat where "c = fl (1 / 10)"
  define t :: rat where "t = 2 powi (- 1022)"
  have t: "0 < t" by (simp add: t_def)
  have t16: "(2::rat) powi (- 1018) = 16 * t"
  proof -
    have "(2::rat) powi (- 1018) = 2 powi (- 1022 + 4)" by simp
    also have "\<dots> = 2 powi (- 1022) * 2 powi 4" by (rule power_int_add) simp
    finally show ?thesis by (simp add: t_def)
  qed
  have eps: "0 < eps" "eps \<le> 1 / 64" by (simp_all add: eps_def)
  have c: "1 / 16 \<le> c" "c \<le> 1 / 8" by (simp_all add: c_def tenth)
  have npos: "(0::rat) < of_nat n" using n by simp
  have n1: "(1::rat) \<le> of_nat n" using n by simp
  have Pn: "of_nat n * (16 * t) \<le> \<bar>P\<bar>" using big unfolding t16 .
  have P16: "16 * t \<le> \<bar>P\<bar>"
  proof -
    have "1 * (16 * t) \<le> of_nat n * (16 * t)" using n1 t by (intro mult_right_mono) simp_all
    with Pn show ?thesis by simp
  qed
  have err: "\<bar>fl x - x\<bar> \<le> eps * \<bar>x\<bar>" if "t \<le> \<bar>x\<bar>" for x
    using fl_error [of x] that by (simp add: eps_def t_def)
  have cP: "\<bar>P * c\<bar> = c * \<bar>P\<bar>" using c by (simp add: abs_mult)
  have "1 / 16 * \<bar>P\<bar> \<le> c * \<bar>P\<bar>" using c by (intro mult_right_mono) simp_all
  with P16 have "t \<le> \<bar>P * c\<bar>" by (simp add: cP)
  from err [OF this] have e1: "\<bar>hc - P * c\<bar> \<le> eps * (c * \<bar>P\<bar>)"
    by (simp add: hc_def c_def [symmetric] cP)
  have PPc: "\<bar>P - P * c\<bar> = (1 - c) * \<bar>P\<bar>"
  proof -
    have "P - P * c = (1 - c) * P" by (simp add: algebra_simps)
    with c show ?thesis by (simp add: abs_mult)
  qed
  have ce: "c * (1 + eps) \<le> 1 / 2"
  proof -
    have "c * (1 + eps) \<le> 1 / 8 * (1 + 1 / 64)"
      using c eps by (intro mult_mono) simp_all
    then show ?thesis by simp
  qed
  have "\<bar>P - hc\<bar> \<le> \<bar>P - P * c\<bar> + \<bar>hc - P * c\<bar>" by linarith
  then have "\<bar>P - hc\<bar> \<le> (1 - c) * \<bar>P\<bar> + eps * (c * \<bar>P\<bar>)" using e1 PPc by linarith
  also have "\<dots> = (1 - c * (1 - eps)) * \<bar>P\<bar>" by (simp add: algebra_simps)
  also have "\<dots> \<le> (31 / 32) * \<bar>P\<bar>"
  proof (rule mult_right_mono)
    have "1 / 16 * (1 / 2) \<le> c * (1 - eps)"
      using c eps by (intro mult_mono) simp_all
    then show "1 - c * (1 - eps) \<le> 31 / 32" by simp
  qed simp
  finally have A: "\<bar>P - hc\<bar> \<le> (31 / 32) * \<bar>P\<bar>" .
  have "\<bar>P - P * c\<bar> - \<bar>hc - P * c\<bar> \<le> \<bar>P - hc\<bar>" by linarith
  then have "(1 - c) * \<bar>P\<bar> - eps * (c * \<bar>P\<bar>) \<le> \<bar>P - hc\<bar>" using e1 PPc by linarith
  moreover have "(1 - c) * \<bar>P\<bar> - eps * (c * \<bar>P\<bar>) = (1 - c * (1 + eps)) * \<bar>P\<bar>"
    by (simp add: algebra_simps)
  moreover have "1 / 2 * \<bar>P\<bar> \<le> (1 - c * (1 + eps)) * \<bar>P\<bar>"
    using ce by (intro mult_right_mono) simp_all
  ultimately have B: "1 / 2 * \<bar>P\<bar> \<le> \<bar>P - hc\<bar>" by linarith
  with P16 t have "t \<le> \<bar>P - hc\<bar>" by linarith
  from err [OF this] have e2: "\<bar>d - (P - hc)\<bar> \<le> eps * \<bar>P - hc\<bar>"
    by (simp add: d_def)
  then have dabs: "\<bar>d\<bar> \<le> (1 + eps) * \<bar>P - hc\<bar>" by (simp add: algebra_simps)
  from e2 have "(1 - eps) * \<bar>P - hc\<bar> \<le> \<bar>d\<bar>" by (simp add: algebra_simps)
  moreover have "1 / 2 * \<bar>P - hc\<bar> \<le> (1 - eps) * \<bar>P - hc\<bar>"
    using eps by (intro mult_right_mono) simp_all
  ultimately have "1 / 2 * \<bar>P - hc\<bar> \<le> \<bar>d\<bar>" by (rule order_trans [rotated])
  moreover have "1 / 4 * \<bar>P\<bar> \<le> 1 / 2 * \<bar>P - hc\<bar>" using B by simp
  ultimately have D: "1 / 4 * \<bar>P\<bar> \<le> \<bar>d\<bar>" by (rule order_trans [rotated])
  have "t \<le> \<bar>d / of_nat n\<bar>"
  proof -
    have "of_nat n * t \<le> of_nat n * (4 * t)" using npos t by simp
    also have "\<dots> = 1 / 4 * (of_nat n * (16 * t))" by simp
    also have "\<dots> \<le> 1 / 4 * \<bar>P\<bar>" using Pn by (intro mult_left_mono) simp_all
    also have "\<dots> \<le> \<bar>d\<bar>" by (rule D)
    finally have "of_nat n * t \<le> \<bar>d\<bar>" .
    then have "t \<le> \<bar>d\<bar> / of_nat n" using npos by (simp add: pos_le_divide_eq mult.commute)
    then show ?thesis using npos by (simp add: abs_divide)
  qed
  from err [OF this] have e3': "\<bar>p - d / of_nat n\<bar> \<le> eps * \<bar>d / of_nat n\<bar>"
    by (simp add: p_def)
  have "of_nat n * p - d = of_nat n * (p - d / of_nat n)"
    using npos by (simp add: algebra_simps)
  then have "\<bar>of_nat n * p - d\<bar> = of_nat n * \<bar>p - d / of_nat n\<bar>"
    using npos by (simp add: abs_mult)
  also have "\<dots> \<le> of_nat n * (eps * \<bar>d / of_nat n\<bar>)"
    using e3' npos by (intro mult_left_mono) simp_all
  also have "\<dots> = eps * \<bar>d\<bar>" using npos by (simp add: abs_divide)
  finally have e3: "\<bar>of_nat n * p - d\<bar> \<le> eps * \<bar>d\<bar>" .
  have "\<bar>hc + of_nat n * p - P\<bar> \<le> \<bar>of_nat n * p - d\<bar> + \<bar>d - (P - hc)\<bar>" by linarith
  also have "\<dots> \<le> eps * \<bar>d\<bar> + eps * \<bar>P - hc\<bar>" using e3 e2 by linarith
  also have "\<dots> \<le> eps * ((1 + eps) * \<bar>P - hc\<bar>) + eps * \<bar>P - hc\<bar>"
    using dabs eps by (simp add: mult_left_mono)
  also have "\<dots> = eps * (2 + eps) * \<bar>P - hc\<bar>" by (simp add: algebra_simps)
  also have "\<dots> \<le> eps * (2 + eps) * ((31 / 32) * \<bar>P\<bar>)"
    using A eps by (intro mult_left_mono) simp_all
  also have "\<dots> = eps * ((2 + eps) * (31 / 32)) * \<bar>P\<bar>" by simp
  also have "\<dots> \<le> eps * 2 * \<bar>P\<bar>"
  proof (intro mult_right_mono mult_left_mono)
    show "(2 + eps) * (31 / 32) \<le> 2" using eps by simp
  qed (use eps in simp_all)
  also have "\<dots> = \<bar>P\<bar> / 2 ^ 52" by (simp add: eps_def)
  finally show ?thesis .
qed

text \<open>Rounding in the subnormal range: to a whole number of units of \<open>2\<^sup>-\<^sup>1\<^sup>0\<^sup>7\<^sup>4\<close>.\<close>

lemma fl_subnormal:
  assumes "x \<noteq> 0" and "\<bar>x\<bar> < 2 powi (- 1022)"
  shows "fl x = of_int (round_even (x / 2 powi (- 1074))) * 2 powi (- 1074)"
proof -
  have "exponent x < - 1022"
  proof (rule ccontr)
    assume "\<not> exponent x < - 1022"
    then have "(2::rat) powi (- 1022) \<le> 2 powi (exponent x)"
      by (intro power_int_increasing) simp_all
    with exponent_bounds(1) [OF assms(1)] assms(2) show False by linarith
  qed
  then have "max (exponent x) (- 1022) - 52 = - 1074" by simp
  with assms(1) show ?thesis by (simp add: fl_def Let_def)
qed

lemma fl_units:
  assumes "\<bar>k\<bar> < 2 ^ 52"
  shows "fl (k * denorm_min) = of_int (round_even k) * denorm_min"
proof (cases "k = 0")
  case True
  then show ?thesis by (simp add: fl_def round_even_def)
next
  case False
  have u: "(0::rat) < 2 powi (- 1074)" by simp
  have split: "(2::rat) powi (- 1022) = 2 ^ 52 * 2 powi (- 1074)"
  proof -
    have "(2::rat) powi (- 1022) = 2 powi (52 + - 1074)" by simp
    also have "\<dots> = 2 powi 52 * 2 powi (- 1074)" by (rule power_int_add) simp
    finally show ?thesis by simp
  qed
  have "\<bar>k * 2 powi (- 1074)\<bar> = \<bar>k\<bar> * 2 powi (- 1074)" by (simp add: abs_mult)
  also have "\<dots> < 2 ^ 52 * 2 powi (- 1074)"
    using assms u by (rule mult_strict_right_mono)
  finally have small: "\<bar>k * 2 powi (- 1074)\<bar> < 2 powi (- 1022)" by (simp only: split)
  from False have nz: "k * 2 powi (- 1074) \<noteq> 0" by simp
  have "k * 2 powi (- 1074) / 2 powi (- 1074) = k" by simp
  with fl_subnormal [OF nz small] show ?thesis by (simp only: denorm_min_def)
qed

text \<open>
  The error of one rounding at any size, and that of the split of a pool of any size.
\<close>

lemma fl_error_any: "\<bar>fl x - x\<bar> \<le> \<bar>x\<bar> / 2 ^ 53 + 2 powi (- 1075)"
proof (cases "2 powi (- 1022) \<le> \<bar>x\<bar>")
  case True
  have "(0::rat) \<le> 2 powi (- 1075)" by simp
  with fl_error [OF True] show ?thesis by linarith
next
  case False
  then have small: "\<bar>x\<bar> < 2 powi (- 1022)" by simp
  show ?thesis
  proof (cases "x = 0")
    case True
    then show ?thesis by (simp add: fl_def)
  next
    case nz: False
    define u :: rat where "u = 2 powi (- 1074)"
    have u: "0 < u" by (simp add: u_def)
    have half: "1 / 2 * u = 2 powi (- 1075)"
    proof -
      have "(2::rat) powi (- 1075) = 2 powi (- 1074 - 1)" by simp
      also have "\<dots> = 2 powi (- 1074) / 2 powi 1" by (rule power_int_diff) simp
      finally show ?thesis by (simp add: u_def)
    qed
    have fl: "fl x = of_int (round_even (x / u)) * u"
      unfolding u_def by (rule fl_subnormal [OF nz small])
    have "fl x - x = (of_int (round_even (x / u)) - x / u) * u"
      using u by (simp add: fl algebra_simps)
    then have "\<bar>fl x - x\<bar> = \<bar>of_int (round_even (x / u)) - x / u\<bar> * u"
      using u by (simp add: abs_mult)
    also have "\<dots> \<le> 1 / 2 * u"
      using round_even_error [of "x / u"] u by (intro mult_right_mono) simp_all
    also have "\<dots> = 2 powi (- 1075)" by (rule half)
    also have "\<dots> \<le> \<bar>x\<bar> / 2 ^ 53 + 2 powi (- 1075)" by simp
    finally show ?thesis .
  qed
qed

lemma rounded_split_error_any:
  fixes P :: rat and n :: nat
  assumes n: "0 < n"
  defines "hc \<equiv> fl (P * fl (1 / 10))"
  defines "d \<equiv> fl (P - hc)"
  defines "p \<equiv> fl (d / of_nat n)"
  shows "\<bar>hc + of_nat n * p - P\<bar> \<le> \<bar>P\<bar> / 2 ^ 52 + of_nat (n + 2) * 2 powi (- 1075)"
proof -
  define eps :: rat where "eps = 1 / 2 ^ 53"
  define eta :: rat where "eta = 2 powi (- 1075)"
  define c :: rat where "c = fl (1 / 10)"
  have eta: "0 < eta" by (simp add: eta_def)
  have eps: "0 < eps" "eps \<le> 1 / 64" by (simp_all add: eps_def)
  have c: "1 / 16 \<le> c" "c \<le> 1 / 8" by (simp_all add: c_def tenth)
  have npos: "(0::rat) < of_nat n" using n by simp
  have err: "\<bar>fl x - x\<bar> \<le> eps * \<bar>x\<bar> + eta" for x
    using fl_error_any [of x] unfolding eps_def eta_def by simp
  have cP: "\<bar>P * c\<bar> = c * \<bar>P\<bar>" using c by (simp add: abs_mult)
  have e1: "\<bar>hc - P * c\<bar> \<le> eps * (c * \<bar>P\<bar>) + eta"
    using err [of "P * c"] by (simp add: hc_def c_def [symmetric] cP)
  have PPc: "\<bar>P - P * c\<bar> = (1 - c) * \<bar>P\<bar>"
  proof -
    have "P - P * c = (1 - c) * P" by (simp add: algebra_simps)
    with c show ?thesis by (simp add: abs_mult)
  qed
  have "\<bar>P - hc\<bar> \<le> \<bar>P - P * c\<bar> + \<bar>hc - P * c\<bar>" by linarith
  then have "\<bar>P - hc\<bar> \<le> (1 - c) * \<bar>P\<bar> + (eps * (c * \<bar>P\<bar>) + eta)"
    using e1 PPc by linarith
  also have "\<dots> = (1 - c * (1 - eps)) * \<bar>P\<bar> + eta" by (simp add: algebra_simps)
  also have "\<dots> \<le> (31 / 32) * \<bar>P\<bar> + eta"
  proof -
    have "1 / 16 * (1 / 2) \<le> c * (1 - eps)"
      using c eps by (intro mult_mono) simp_all
    then have "1 - c * (1 - eps) \<le> 31 / 32" by simp
    then have "(1 - c * (1 - eps)) * \<bar>P\<bar> \<le> (31 / 32) * \<bar>P\<bar>"
      by (rule mult_right_mono) simp
    then show ?thesis by simp
  qed
  finally have A: "\<bar>P - hc\<bar> \<le> (31 / 32) * \<bar>P\<bar> + eta" .
  have e2: "\<bar>d - (P - hc)\<bar> \<le> eps * \<bar>P - hc\<bar> + eta"
    using err [of "P - hc"] by (simp add: d_def)
  have "\<bar>d\<bar> \<le> \<bar>P - hc\<bar> + \<bar>d - (P - hc)\<bar>" by linarith
  with e2 have "\<bar>d\<bar> \<le> \<bar>P - hc\<bar> + (eps * \<bar>P - hc\<bar> + eta)" by linarith
  then have dabs: "\<bar>d\<bar> \<le> (1 + eps) * \<bar>P - hc\<bar> + eta" by (simp add: algebra_simps)
  have e3': "\<bar>p - d / of_nat n\<bar> \<le> eps * \<bar>d / of_nat n\<bar> + eta"
    using err [of "d / of_nat n"] by (simp add: p_def)
  have "of_nat n * p - d = of_nat n * (p - d / of_nat n)"
    using npos by (simp add: algebra_simps)
  then have "\<bar>of_nat n * p - d\<bar> = of_nat n * \<bar>p - d / of_nat n\<bar>"
    using npos by (simp add: abs_mult)
  also have "\<dots> \<le> of_nat n * (eps * \<bar>d / of_nat n\<bar> + eta)"
    using e3' npos by (intro mult_left_mono) simp_all
  also have "\<dots> = eps * \<bar>d\<bar> + of_nat n * eta"
    using npos by (simp add: abs_divide algebra_simps)
  finally have e3: "\<bar>of_nat n * p - d\<bar> \<le> eps * \<bar>d\<bar> + of_nat n * eta" .
  have x1: "eps * \<bar>d\<bar> \<le> eps * ((1 + eps) * \<bar>P - hc\<bar> + eta)"
    using dabs eps by (intro mult_left_mono) simp_all
  have x2: "eps * (2 + eps) * \<bar>P - hc\<bar> \<le> eps * (2 + eps) * ((31 / 32) * \<bar>P\<bar> + eta)"
    using A eps by (intro mult_left_mono) simp_all
  have x3: "eps * ((2 + eps) * (31 / 32)) * \<bar>P\<bar> \<le> eps * 2 * \<bar>P\<bar>"
  proof (intro mult_right_mono mult_left_mono)
    show "(2 + eps) * (31 / 32) \<le> 2" using eps by simp
  qed (use eps in simp_all)
  have x4: "(eps * (2 + eps) + eps) * eta \<le> 1 * eta"
  proof (rule mult_right_mono)
    have "eps * (2 + eps) \<le> 1 / 64 * (2 + 1 / 64)" using eps by (intro mult_mono) simp_all
    with eps show "eps * (2 + eps) + eps \<le> 1" by simp
  qed (use eta in simp)
  have "\<bar>hc + of_nat n * p - P\<bar> \<le> \<bar>of_nat n * p - d\<bar> + \<bar>d - (P - hc)\<bar>" by linarith
  also have "\<dots> \<le> (eps * \<bar>d\<bar> + of_nat n * eta) + (eps * \<bar>P - hc\<bar> + eta)"
    using e3 e2 by linarith
  also have "\<dots> \<le> (eps * ((1 + eps) * \<bar>P - hc\<bar> + eta) + of_nat n * eta) + (eps * \<bar>P - hc\<bar> + eta)"
    using x1 by linarith
  also have "\<dots> = eps * (2 + eps) * \<bar>P - hc\<bar> + eps * eta + of_nat (n + 1) * eta"
    by (simp add: algebra_simps)
  also have "\<dots> \<le> eps * (2 + eps) * ((31 / 32) * \<bar>P\<bar> + eta) + eps * eta + of_nat (n + 1) * eta"
    using x2 by linarith
  also have "\<dots> = eps * ((2 + eps) * (31 / 32)) * \<bar>P\<bar> + (eps * (2 + eps) + eps) * eta
      + of_nat (n + 1) * eta"
    by (simp add: algebra_simps)
  also have "\<dots> \<le> eps * 2 * \<bar>P\<bar> + 1 * eta + of_nat (n + 1) * eta"
    using x3 x4 by linarith
  also have "\<dots> = \<bar>P\<bar> / 2 ^ 52 + of_nat (n + 2) * eta"
    by (simp add: eps_def algebra_simps)
  finally show ?thesis unfolding eta_def .
qed

subsection \<open>The outcome and the credit loop\<close>

lemma real_result_cases:
  "real_result api mid m = Inr res \<Longrightarrow> res = ''home'' \<or> res = ''away'' \<or> res = ''draw''"
  by (auto simp: real_result_def split: if_splits option.splits list.splits)

lemma real_result_not_pending:
  "real_result api mid m = Inr res \<Longrightarrow> res \<noteq> ''pending''"
  by (drule real_result_cases) auto

lemma credit_winners_Match:
  "Match (fst (credit_winners s p ws)) = Match s"
  by (induction ws arbitrary: s) (auto split: option.splits)

text \<open>
  A loop that returns has credited every user once for each of their winning entries, and
  nobody else.
\<close>

lemma credit_winners_User:
  "credit_winners s p ws = (s1, Returned) \<Longrightarrow>
   User s1 uid =
     map_option (credit_user p ^^ length (filter (\<lambda>e. userId e = uid) ws)) (User s uid)"
proof (induction ws arbitrary: s)
  case Nil
  then show ?case by (simp add: option.map_ident)
next
  case (Cons w ws)
  from Cons.prems obtain u where u: "User s (userId w) = Some u"
    by (auto split: option.splits)
  let ?s2 = "s\<lparr>User := (User s)(userId w \<mapsto> credit_user p u)\<rparr>"
  from Cons.prems u have "credit_winners ?s2 p ws = (s1, Returned)" by simp
  from Cons.IH [OF this]
  have ih: "User s1 uid =
     map_option (credit_user p ^^ length (filter (\<lambda>e. userId e = uid) ws)) (User ?s2 uid)" .
  show ?case
  proof (cases "userId w = uid")
    case True
    with ih u show ?thesis by (simp add: funpow_swap1)
  next
    case False
    with ih show ?thesis by simp
  qed
qed

lemma credit_winners_found:
  "credit_winners s p ws = (s1, Returned) \<Longrightarrow> w \<in> set ws \<Longrightarrow> User s (userId w) \<noteq> None"
proof (induction ws arbitrary: s)
  case Nil
  then show ?case by simp
next
  case (Cons x xs)
  from Cons.prems obtain u where u: "User s (userId x) = Some u"
    by (auto split: option.splits)
  let ?s2 = "s\<lparr>User := (User s)(userId x \<mapsto> credit_user p u)\<rparr>"
  from Cons.prems u have run: "credit_winners ?s2 p xs = (s1, Returned)" by simp
  show ?case
  proof (cases "w = x")
    case True
    with u show ?thesis by simp
  next
    case False
    with Cons.prems have "w \<in> set xs" by simp
    from Cons.IH [OF run this] u show ?thesis by (auto split: if_splits)
  qed
qed

lemma credit_user_funpow_balance:
  "piBalance ((credit_user p ^^ k) u) = ((\<lambda>b. fadd b p) ^^ k) (piBalance u)"
  by (induction k) (simp_all add: credit_user_def Let_def)

lemma credit_user_funpow_wins:
  "wins ((credit_user p ^^ k) u) = wins u + k"
  by (induction k) (simp_all add: credit_user_def Let_def)

subsection \<open>Settlement\<close>

lemma settleMatch_settled:
  "Match s mid = Some m \<Longrightarrow> result m \<noteq> ''pending'' \<Longrightarrow> settleMatch api s mid = (s, Returned)"
  by (simp add: settleMatch_def)

lemma settleMatch_pending:
  assumes "Match s mid = Some m" and "result m = ''pending''"
      and "real_result api mid m = Inr res"
  shows "settleMatch api s mid =
     (let s1 = s\<lparr>Match := (Match s)(mid \<mapsto> m\<lparr>result := res\<rparr>)\<rparr>
      in if winners_of res m = [] then (s1, Returned)
         else credit_winners s1 (payoutPerWinner m (winners_of res m)) (winners_of res m))"
  using assms by (simp add: settleMatch_def Let_def winners_of_def payoutPerWinner_def houseCut_def)

lemma settleMatch_Match:
  assumes "Match s mid = Some m" and "result m = ''pending''"
      and "real_result api mid m = Inr res"
  shows "Match (fst (settleMatch api s mid)) = (Match s)(mid \<mapsto> m\<lparr>result := res\<rparr>)"
  using assms credit_winners_Match [of "s\<lparr>Match := (Match s)(mid \<mapsto> m\<lparr>result := res\<rparr>)\<rparr>"]
  by (simp add: settleMatch_pending Let_def)

lemma settleMatch_User:
  assumes "Match s mid = Some m" and "result m = ''pending''"
      and "real_result api mid m = Inr res"
      and "settleMatch api s mid = (s1, Returned)"
  shows "User s1 uid =
     map_option (credit_user (payoutPerWinner m (winners_of res m))
                   ^^ length (filter (\<lambda>e. userId e = uid) (winners_of res m))) (User s uid)"
proof (cases "winners_of res m = []")
  case True
  with assms show ?thesis
    by (auto simp: settleMatch_pending option.map_id option.map_ident)
next
  case False
  with assms have "credit_winners (s\<lparr>Match := (Match s)(mid \<mapsto> m\<lparr>result := res\<rparr>)\<rparr>)
      (payoutPerWinner m (winners_of res m)) (winners_of res m) = (s1, Returned)"
    by (simp add: settleMatch_pending)
  from credit_winners_User [OF this] show ?thesis by simp
qed
text \<open>
  C1. Settlement is idempotent. When a call of \<open>settleMatch\<close> has returned, the match
  is no longer pending, and every later call on the same match returns as the first did
  and leaves the whole database as it was: no balance, win counter or list of discount
  codes changes, whatever the sports API answers by then.
\<close>

theorem settle_idempotent:
  assumes "settleMatch api s mid = (s1, Returned)"
  shows "settleMatch api' s1 mid = (s1, Returned)"
proof (cases "Match s mid")
  case None
  with assms show ?thesis by (simp add: settleMatch_def)
next
  case (Some m)
  show ?thesis
  proof (cases "result m = ''pending''")
    case False
    with Some assms have "s1 = s" by (simp add: settleMatch_def)
    with Some False show ?thesis by (simp add: settleMatch_settled)
  next
    case True
    from assms Some True obtain res where rr: "real_result api mid m = Inr res"
      by (auto simp: settleMatch_def split: sum.splits)
    from settleMatch_Match [OF Some True rr] assms
    have "Match s1 mid = Some (m\<lparr>result := res\<rparr>)" by simp
    moreover have "result (m\<lparr>result := res\<rparr>) \<noteq> ''pending''"
      using real_result_not_pending [OF rr] by simp
    ultimately show ?thesis by (rule settleMatch_settled)
  qed
qed

text \<open>
  The first call settles a tied NBA game and pays bob 9; the second call, with an API
  that now reports a home win, changes nothing.
\<close>

theorem settle_idempotent_witness:
  "snd (settleMatch (scores 100 100) two_sides ''nba_1'') = Returned \<and>
   map_option piBalance (User (fst (settleMatch (scores 100 100) two_sides ''nba_1'')) ''bob'')
     = Some 19 \<and>
   settleMatch (scores 101 99) (fst (settleMatch (scores 100 100) two_sides ''nba_1'')) ''nba_1''
     = (fst (settleMatch (scores 100 100) two_sides ''nba_1''), Returned)"
proof -
  have r: "snd (settleMatch (scores 100 100) two_sides ''nba_1'') = Returned"
    by code_simp
  have b: "map_option piBalance
      (User (fst (settleMatch (scores 100 100) two_sides ''nba_1'')) ''bob'') = Some 19"
    by code_simp
  from r have h: "settleMatch (scores 100 100) two_sides ''nba_1''
      = (fst (settleMatch (scores 100 100) two_sides ''nba_1''), Returned)"
    by (simp add: prod_eq_iff)
  from r b settle_idempotent [OF h] show ?thesis by blast
qed

text \<open>
  C2, as the code has it. The payout of a settled pool with winners is the quotient
  \<open>(pool - pool * 0.1) / winnerCount\<close> as binary64 arithmetic computes it: it is not
  rounded down to a unit of the ledger and no remainder is kept back. A user who held
  \<open>k\<close> of the winning entries has had that quotient added to the balance \<open>k\<close> times. For
  a pool of 10 and three winners the quotient is 3 (the witness).
\<close>

theorem payout_is_unrounded_quotient:
  assumes "Match s mid = Some m" and "result m = ''pending''"
      and "real_result api mid m = Inr res"
      and "winners_of res m \<noteq> []"
      and "settleMatch api s mid = (s1, Returned)"
      and "User s uid = Some u"
  shows "\<exists>u1. User s1 uid = Some u1 \<and>
           piBalance u1 =
             ((\<lambda>b. fadd b (fdiv (fsub (pool m) (fmul (pool m) (fl (1 / 10))))
                               (of_nat (length (winners_of res m)))))
                ^^ length (filter (\<lambda>e. userId e = uid) (winners_of res m))) (piBalance u)"
  using settleMatch_User [OF assms(1,2,3,5), of uid] assms(6)
  by (simp add: credit_user_funpow_balance payoutPerWinner_def houseCut_def)

theorem payout_is_unrounded_quotient_witness:
  "\<exists>u1. User (fst (settleMatch (scores 101 99) three_winners ''nba_1'')) ''bob'' = Some u1
      \<and> piBalance u1 = 10 + 3"
proof -
  let ?m = "fixture ''nba'' ''pending''
                 [stake ''alice'' ''home'' (5 / 2), stake ''bob'' ''home'' (5 / 2),
                  stake ''carol'' ''home'' (5 / 2), stake ''alice'' ''away'' (5 / 2)]"
  have 1: "Match three_winners ''nba_1'' = Some ?m" by (simp add: three_winners_def)
  have 2: "result ?m = ''pending''" by (simp add: fixture_def)
  have 3: "real_result (scores 101 99) ''nba_1'' ?m = Inr ''home''"
    by (simp add: eval_defs example_defs)
  have 4: "winners_of ''home'' ?m \<noteq> []" by (simp add: eval_defs example_defs)
  have r: "snd (settleMatch (scores 101 99) three_winners ''nba_1'') = Returned"
    by code_simp
  then have 5: "settleMatch (scores 101 99) three_winners ''nba_1''
      = (fst (settleMatch (scores 101 99) three_winners ''nba_1''), Returned)"
    by (simp add: prod_eq_iff)
  have 6: "User three_winners ''bob'' = Some (member ''bob'' 10 True)"
    by (simp add: three_winners_def members_def)
  have v: "((\<lambda>b. fadd b (fdiv (fsub (pool ?m) (fmul (pool ?m) (fl (1 / 10))))
                               (of_nat (length (winners_of ''home'' ?m)))))
                ^^ length (filter (\<lambda>e. userId e = ''bob'') (winners_of ''home'' ?m)))
             (piBalance (member ''bob'' 10 True)) = 13"
    by code_simp
  from payout_is_unrounded_quotient [OF 1 2 3 4 5 6] show ?thesis
    unfolding v by simp
qed

text \<open>
  C2 as stated fails. Eight entries of 1.25 make a pool of 10; seven of them predicted
  the home win. The house cut is 1 and each winning entry is paid the binary64 quotient
  of 9 by 7, 1.2857142857142858, where the floor to a hundredth is 1.28: alice, who holds
  one of the seven, ends above 10 + 1.28.
\<close>

theorem payout_floor_counterexample:
  "snd (settleMatch (scores 101 99) seven_winners ''nba_1'') = Returned \<and>
   map_option piBalance (User seven_winners ''alice'') = Some 10 \<and>
   map_option piBalance (User (fst (settleMatch (scores 101 99) seven_winners ''nba_1'')) ''alice'')
     = Some (fadd 10 (fl (9 / 7))) \<and>
   floor_to_unit (1 / 100) (fl (9 / 7)) = 128 / 100 \<and>
   fadd 10 (128 / 100) < fadd 10 (fl (9 / 7))"
proof -
  have "snd (settleMatch (scores 101 99) seven_winners ''nba_1'') = Returned"
    by code_simp
  moreover have "map_option piBalance (User seven_winners ''alice'') = Some 10"
    by code_simp
  moreover have "map_option piBalance
      (User (fst (settleMatch (scores 101 99) seven_winners ''nba_1'')) ''alice'')
     = Some (fadd 10 (fl (9 / 7)))"
    by code_simp
  moreover have "floor_to_unit (1 / 100) (fl (9 / 7)) = 128 / 100"
    by code_simp
  moreover have "fadd 10 (128 / 100) < fadd 10 (fl (9 / 7))"
    by code_simp
  ultimately show ?thesis by blast
qed

text \<open>
  C3, as the code has it. The house cut is \<open>pool * 0.1\<close> and the payout of each winning
  entry is \<open>(pool - houseCut) / winnerCount\<close>, each operation rounded to the nearest
  binary64 number and nothing rounded to a unit of the ledger or down. For every pool
  that is a finite number (below \<open>2\<^sup>1\<^sup>0\<^sup>2\<^sup>4\<close> in magnitude), the house cut and the payouts
  of all winning entries together differ from the pool, in either direction, by at most
  one part in \<open>2\<^sup>5\<^sup>2\<close> of the pool and \<open>winnerCount + 2\<close> halves of the smallest
  number, \<open>2\<^sup>-\<^sup>1\<^sup>0\<^sup>7\<^sup>4\<close>; and by at most one part in \<open>2\<^sup>5\<^sup>2\<close> of the pool when the pool
  is large enough for no result to be subnormal (at least \<open>winnerCount / 2\<^sup>1\<^sup>0\<^sup>1\<^sup>8\<close> in
  magnitude). No operation of the settlement overflows: the house cut and what is left
  after it are smaller than the pool.
\<close>

theorem payouts_within_rounding:
  assumes "winners_of res m \<noteq> []" and "\<bar>pool m\<bar> < 2 ^ 1024"
  shows "\<bar>houseCut m
            + of_nat (length (winners_of res m)) * payoutPerWinner m (winners_of res m)
            - pool m\<bar>
         \<le> \<bar>pool m\<bar> / 2 ^ 52 + of_nat (length (winners_of res m) + 2) / 2 ^ 1075 \<and>
         (of_nat (length (winners_of res m)) / 2 ^ 1018 \<le> \<bar>pool m\<bar> \<longrightarrow>
          \<bar>houseCut m
            + of_nat (length (winners_of res m)) * payoutPerWinner m (winners_of res m)
            - pool m\<bar>
          \<le> \<bar>pool m\<bar> / 2 ^ 52)"
proof (intro conjI impI)
  from assms(1) have n: "0 < length (winners_of res m)" by simp
  have "(2::rat) powi (- 1075) = inverse (2 powi 1075)" by (rule power_int_minus)
  also have "\<dots> = 1 / 2 ^ 1075" by (simp only: power_int_numeral inverse_eq_divide)
  finally have eta: "(2::rat) powi (- 1075) = 1 / 2 ^ 1075" .
  from rounded_split_error_any [OF n]
  show "\<bar>houseCut m
            + of_nat (length (winners_of res m)) * payoutPerWinner m (winners_of res m)
            - pool m\<bar>
         \<le> \<bar>pool m\<bar> / 2 ^ 52 + of_nat (length (winners_of res m) + 2) / 2 ^ 1075"
    by (simp only: houseCut_def payoutPerWinner_def fmul_def fsub_def fdiv_def eta
          times_divide_eq_right mult_1_right)
  assume big: "of_nat (length (winners_of res m)) / 2 ^ 1018 \<le> \<bar>pool m\<bar>"
  have "(2::rat) powi (- 1018) = inverse (2 powi 1018)" by (rule power_int_minus)
  also have "\<dots> = 1 / 2 ^ 1018" by (simp only: power_int_numeral inverse_eq_divide)
  finally have "of_nat (length (winners_of res m)) * 2 powi (- 1018) \<le> \<bar>pool m\<bar>"
    using big by (simp only: times_divide_eq_right mult_1_right)
  from rounded_split_error [OF n this]
  show "\<bar>houseCut m
            + of_nat (length (winners_of res m)) * payoutPerWinner m (winners_of res m)
            - pool m\<bar>
         \<le> \<bar>pool m\<bar> / 2 ^ 52"
    by (simp only: houseCut_def payoutPerWinner_def fmul_def fsub_def fdiv_def)
qed

text \<open>The pool of 10 with three winners: the difference is within 10 parts in \<open>2\<^sup>5\<^sup>2\<close>.\<close>

theorem payouts_within_rounding_witness:
  "\<bar>houseCut (fixture ''nba'' ''pending''
                 [stake ''alice'' ''home'' (5 / 2), stake ''bob'' ''home'' (5 / 2),
                  stake ''carol'' ''home'' (5 / 2), stake ''alice'' ''away'' (5 / 2)])
     + 3 * payoutPerWinner (fixture ''nba'' ''pending''
                 [stake ''alice'' ''home'' (5 / 2), stake ''bob'' ''home'' (5 / 2),
                  stake ''carol'' ''home'' (5 / 2), stake ''alice'' ''away'' (5 / 2)])
             (winners_of ''home'' (fixture ''nba'' ''pending''
                 [stake ''alice'' ''home'' (5 / 2), stake ''bob'' ''home'' (5 / 2),
                  stake ''carol'' ''home'' (5 / 2), stake ''alice'' ''away'' (5 / 2)]))
     - 10\<bar> \<le> 10 / 2 ^ 52 + 5 / 2 ^ 1075 \<and>
   \<bar>houseCut (fixture ''nba'' ''pending''
                 [stake ''alice'' ''home'' (5 / 2), stake ''bob'' ''home'' (5 / 2),
                  stake ''carol'' ''home'' (5 / 2), stake ''alice'' ''away'' (5 / 2)])
     + 3 * payoutPerWinner (fixture ''nba'' ''pending''
                 [stake ''alice'' ''home'' (5 / 2), stake ''bob'' ''home'' (5 / 2),
                  stake ''carol'' ''home'' (5 / 2), stake ''alice'' ''away'' (5 / 2)])
             (winners_of ''home'' (fixture ''nba'' ''pending''
                 [stake ''alice'' ''home'' (5 / 2), stake ''bob'' ''home'' (5 / 2),
                  stake ''carol'' ''home'' (5 / 2), stake ''alice'' ''away'' (5 / 2)]))
     - 10\<bar> \<le> 10 / 2 ^ 52"
proof -
  let ?m = "fixture ''nba'' ''pending''
                 [stake ''alice'' ''home'' (5 / 2), stake ''bob'' ''home'' (5 / 2),
                  stake ''carol'' ''home'' (5 / 2), stake ''alice'' ''away'' (5 / 2)]"
  have 1: "winners_of ''home'' ?m \<noteq> []" by (simp add: winners_of_def example_defs)
  have 2: "length (winners_of ''home'' ?m) = 3" by (simp add: winners_of_def example_defs)
  have 3: "pool ?m = 10" by code_simp
  have 4: "of_nat (length (winners_of ''home'' ?m)) / 2 ^ 1018 \<le> \<bar>pool ?m\<bar>"
    unfolding 2 3 by simp
  have 5: "\<bar>pool ?m\<bar> < 2 ^ 1024" unfolding 3 by simp
  from payouts_within_rounding [OF 1 5] 4 show ?thesis unfolding 2 3 by simp
qed

text \<open>
  C3 as stated fails. Six entries at the default fee of 0.5 make a pool of 3, and all six
  predicted the home win. The house cut is 0.30000000000000004 and each payout is 0.45,
  the binary64 numbers of these names: together they are more than the pool.

  For a pool that is subnormal the excess is not a matter of the last bit of the pool.
  Two entries with the fees \<^verbatim>\<open>5e-324\<close> and \<^verbatim>\<open>1e-323\<close>, both winners, make a pool of
  three times the smallest number: the house cut underflows to 0, and each winner is paid
  twice the smallest number, four units out of a pool of three.
\<close>

theorem payouts_exceed_pool_counterexample:
  "Match six_winners ''nba_1'' = Some six_halves \<and>
   pool six_halves = 3 \<and>
   length (winners_of ''home'' six_halves) = 6 \<and>
   houseCut six_halves = 1351079888211149 / 4503599627370496 \<and>
   payoutPerWinner six_halves (winners_of ''home'' six_halves)
     = 8106479329266893 / 18014398509481984 \<and>
   pool six_halves
     < houseCut six_halves + 6 * payoutPerWinner six_halves (winners_of ''home'' six_halves) \<and>
   pool tiny_pool = 3 * denorm_min \<and>
   length (winners_of ''home'' tiny_pool) = 2 \<and>
   houseCut tiny_pool = 0 \<and>
   payoutPerWinner tiny_pool (winners_of ''home'' tiny_pool) = 2 * denorm_min"
proof -
  have m: "Match six_winners ''nba_1'' = Some six_halves" by (simp add: six_winners_def)
  have p: "pool six_halves = 3" by code_simp
  have n: "length (winners_of ''home'' six_halves) = 6"
    by (simp add: winners_of_def six_halves_def fixture_def stake_def)
  have "fmul 3 (fl (1 / 10)) = 1351079888211149 / 4503599627370496" by code_simp
  then have h: "houseCut six_halves = 1351079888211149 / 4503599627370496"
    by (simp add: houseCut_def p)
  have "fdiv (fsub 3 (1351079888211149 / 4503599627370496)) 6
      = 8106479329266893 / 18014398509481984" by code_simp
  then have q: "payoutPerWinner six_halves (winners_of ''home'' six_halves)
      = 8106479329266893 / 18014398509481984"
    by (simp add: payoutPerWinner_def p n h)
  have x: "pool six_halves
     < houseCut six_halves + 6 * payoutPerWinner six_halves (winners_of ''home'' six_halves)"
    unfolding p h q by simp
  have r1: "round_even 1 = 1" and r3: "round_even 3 = 3" and r32: "round_even (3 / 2) = 2"
    and r0: "round_even (10808639105689191 / 36028797018963968) = 0"
    by code_simp+
  have u1: "fl denorm_min = denorm_min"
    using fl_units [of 1] by (simp add: r1)
  have u3: "fl (3 * denorm_min) = 3 * denorm_min"
    using fl_units [of 3] by (simp add: r3)
  have "denorm_min + 2 * denorm_min = 3 * denorm_min" by simp
  then have tp: "pool tiny_pool = 3 * denorm_min"
    by (simp add: tiny_pool_def fixture_def stake_def fadd_def u1 u3)
  have tn: "length (winners_of ''home'' tiny_pool) = 2"
    by (simp add: winners_of_def tiny_pool_def fixture_def stake_def)
  have "3 * denorm_min * (3602879701896397 / 36028797018963968)
      = 3 * (3602879701896397 / 36028797018963968) * denorm_min" by simp
  then have "fl (3 * denorm_min * (3602879701896397 / 36028797018963968)) = 0"
    using fl_units [of "3 * (3602879701896397 / 36028797018963968)"] by (simp add: r0)
  then have th: "houseCut tiny_pool = 0"
    by (simp add: houseCut_def fmul_def tp tenth)
  have "3 * denorm_min / 2 = 3 / 2 * denorm_min" by simp
  then have "fl (3 * denorm_min / 2) = 2 * denorm_min"
    using fl_units [of "3 / 2"] by (simp add: r32)
  then have tq: "payoutPerWinner tiny_pool (winners_of ''home'' tiny_pool) = 2 * denorm_min"
    by (simp add: payoutPerWinner_def fdiv_def fsub_def tp tn th u3)
  from m p n h q x tp tn th tq show ?thesis by blast
qed

text \<open>
  C6. When no entry predicted the outcome, \<open>settleMatch\<close> records the outcome on the
  match and returns: the match is no longer pending, no user document changes, and the
  pool stays on the match whole, paid out to nobody.
\<close>

theorem no_winners_no_credit:
  assumes "Match s mid = Some m" and "result m = ''pending''"
      and "real_result api mid m = Inr res"
      and "\<forall>e \<in> set (entries m). prediction e \<noteq> res"
  shows "settleMatch api s mid = (s\<lparr>Match := (Match s)(mid \<mapsto> m\<lparr>result := res\<rparr>)\<rparr>, Returned)
         \<and> res \<noteq> ''pending''"
proof -
  from assms(4) have "winners_of res m = []"
    by (auto simp: winners_of_def filter_empty_conv)
  with assms(1-3) real_result_not_pending [OF assms(3)] show ?thesis
    by (simp add: settleMatch_pending)
qed

text \<open>
  A football fixture ends 1 to 1 and nobody predicted the draw: the result is recorded
  and that is all.
\<close>

theorem no_winners_no_credit_witness:
  "settleMatch (scores 1 1) derby ''fb_7''
     = (derby\<lparr>Match := (Match derby)(''fb_7'' \<mapsto>
          (fixture ''football'' ''pending''
             [stake ''alice'' ''home'' 5, stake ''bob'' ''away'' 5])\<lparr>result := ''draw''\<rparr>)\<rparr>,
        Returned)"
proof -
  let ?m = "fixture ''football'' ''pending'' [stake ''alice'' ''home'' 5, stake ''bob'' ''away'' 5]"
  have 1: "Match derby ''fb_7'' = Some ?m" by (simp add: derby_def)
  have 2: "result ?m = ''pending''" by (simp add: fixture_def)
  have 3: "real_result (scores 1 1) ''fb_7'' ?m = Inr ''draw''"
    by (simp add: eval_defs example_defs)
  have 4: "\<forall>e \<in> set (entries ?m). prediction e \<noteq> ''draw''"
    by (simp add: fixture_def stake_def)
  from no_winners_no_credit [OF 1 2 3 4] show ?thesis by simp
qed

text \<open>
  C10. An NBA match is settled as \<open>home\<close> when the home score is greater and as
  \<open>away\<close> otherwise, never as \<open>draw\<close>. Equal scores make it \<open>away\<close>, and when the
  call returns, every user who holds an entry predicting \<open>away\<close> has had the payout
  added to the balance once for each such entry and has more wins than before.
\<close>

theorem nba_never_draw:
  assumes "Match s mid = Some m" and "result m = ''pending''" and "sport m = ''nba''"
      and "nba_api api (external_id mid) = Some game"
      and "settleMatch api s mid = (s1, c)"
  shows "\<exists>m1. Match s1 mid = Some m1 \<and> (result m1 = ''home'' \<or> result m1 = ''away'') \<and>
           (home_team_score game = visitor_team_score game \<longrightarrow>
              result m1 = ''away'' \<and>
              (c = Returned \<longrightarrow>
                (\<forall>e \<in> set (entries m). prediction e = ''away'' \<longrightarrow>
                   (\<exists>u u1. User s (userId e) = Some u \<and> User s1 (userId e) = Some u1 \<and>
                      wins u < wins u1 \<and>
                      piBalance u1 =
                        ((\<lambda>b. fadd b (payoutPerWinner m (winners_of ''away'' m)))
                           ^^ length (filter (\<lambda>w. userId w = userId e) (winners_of ''away'' m)))
                          (piBalance u)))))"
proof -
  define res where "res = (if js_gt (home_team_score game) (visitor_team_score game)
                           then ''home'' else ''away'')"
  have rr: "real_result api mid m = Inr res"
    using assms(3,4) by (simp add: real_result_def res_def)
  have m1: "Match s1 mid = Some (m\<lparr>result := res\<rparr>)"
    using settleMatch_Match [OF assms(1,2) rr] assms(5) by simp
  have ha: "res = ''home'' \<or> res = ''away''" by (simp add: res_def)
  have tie: "res = ''away''" if "home_team_score game = visitor_team_score game"
    using that by (simp add: res_def js_gt_def split: option.splits)
  have credited: "\<exists>u u1. User s (userId e) = Some u \<and> User s1 (userId e) = Some u1 \<and>
        wins u < wins u1 \<and>
        piBalance u1 =
          ((\<lambda>b. fadd b (payoutPerWinner m (winners_of ''away'' m)))
             ^^ length (filter (\<lambda>w. userId w = userId e) (winners_of ''away'' m)))
            (piBalance u)"
    if eq: "home_team_score game = visitor_team_score game" and ret: "c = Returned"
      and e: "e \<in> set (entries m)" and pe: "prediction e = ''away''" for e
  proof -
    from tie [OF eq] rr have rr': "real_result api mid m = Inr ''away''" by simp
    from e pe have ew: "e \<in> set (winners_of ''away'' m)" by (simp add: winners_of_def)
    then have ne: "winners_of ''away'' m \<noteq> []" by auto
    from assms(5) ret have run: "settleMatch api s mid = (s1, Returned)" by simp
    with assms(1,2) rr' ne
    have cw: "credit_winners (s\<lparr>Match := (Match s)(mid \<mapsto> m\<lparr>result := ''away''\<rparr>)\<rparr>)
        (payoutPerWinner m (winners_of ''away'' m)) (winners_of ''away'' m) = (s1, Returned)"
      by (simp add: settleMatch_pending)
    from credit_winners_found [OF cw ew] obtain u where u: "User s (userId e) = Some u"
      by auto
    let ?k = "length (filter (\<lambda>w. userId w = userId e) (winners_of ''away'' m))"
    from ew have "filter (\<lambda>w. userId w = userId e) (winners_of ''away'' m) \<noteq> []"
      by (auto simp: filter_empty_conv)
    then have k: "0 < ?k" by simp
    from settleMatch_User [OF assms(1,2) rr' run, of "userId e"] u
    have "User s1 (userId e) =
        Some ((credit_user (payoutPerWinner m (winners_of ''away'' m)) ^^ ?k) u)" by simp
    with u k show ?thesis
      by (simp add: credit_user_funpow_balance credit_user_funpow_wins)
  qed
  from m1 ha tie credited show ?thesis by auto
qed

text \<open>A game that ends 100 to 100 is settled as \<open>away\<close>, and bob, who predicted it, is paid 9.\<close>

theorem nba_never_draw_witness:
  "\<exists>m1 u1. Match (fst (settleMatch (scores 100 100) two_sides ''nba_1'')) ''nba_1'' = Some m1 \<and>
      result m1 = ''away'' \<and>
      User (fst (settleMatch (scores 100 100) two_sides ''nba_1'')) ''bob'' = Some u1 \<and>
      0 < wins u1 \<and> piBalance u1 = 10 + 9"
proof -
  let ?m = "fixture ''nba'' ''pending'' [stake ''alice'' ''home'' 5, stake ''bob'' ''away'' 5]"
  let ?game = "\<lparr>home_team_score = Num 100, visitor_team_score = Num 100\<rparr>"
  let ?s1 = "fst (settleMatch (scores 100 100) two_sides ''nba_1'')"
  have 1: "Match two_sides ''nba_1'' = Some ?m" by (simp add: two_sides_def)
  have 2: "result ?m = ''pending''" by (simp add: fixture_def)
  have 3: "sport ?m = ''nba''" by (simp add: fixture_def)
  have 4: "nba_api (scores 100 100) (external_id ''nba_1'') = Some ?game"
    by (simp add: scores_def external_id_def)
  have r: "snd (settleMatch (scores 100 100) two_sides ''nba_1'') = Returned"
    by code_simp
  then have 5: "settleMatch (scores 100 100) two_sides ''nba_1'' = (?s1, Returned)"
    by (simp add: prod_eq_iff)
  from nba_never_draw [OF 1 2 3 4 5]
  obtain m1 where m1: "Match ?s1 ''nba_1'' = Some m1" "result m1 = ''away''"
    and cr: "\<forall>e \<in> set (entries ?m). prediction e = ''away'' \<longrightarrow>
       (\<exists>u u1. User two_sides (userId e) = Some u \<and> User ?s1 (userId e) = Some u1 \<and>
          wins u < wins u1 \<and>
          piBalance u1 =
            ((\<lambda>b. fadd b (payoutPerWinner ?m (winners_of ''away'' ?m)))
               ^^ length (filter (\<lambda>w. userId w = userId e) (winners_of ''away'' ?m)))
              (piBalance u))"
    by auto
  have ub: "userId (stake ''bob'' ''away'' 5) = ''bob''" by (simp add: stake_def)
  have bob: "User two_sides ''bob'' = Some (member ''bob'' 10 True)"
    by (simp add: two_sides_def members_def)
  have v: "((\<lambda>b. fadd b (payoutPerWinner ?m (winners_of ''away'' ?m)))
               ^^ length (filter (\<lambda>w. userId w = ''bob'') (winners_of ''away'' ?m)))
              (piBalance (member ''bob'' 10 True)) = 19"
    by code_simp
  have "stake ''bob'' ''away'' 5 \<in> set (entries ?m)" by (simp add: fixture_def)
  moreover have "prediction (stake ''bob'' ''away'' 5) = ''away''" by (simp add: stake_def)
  ultimately have "\<exists>u u1. User two_sides (userId (stake ''bob'' ''away'' 5)) = Some u \<and>
      User ?s1 (userId (stake ''bob'' ''away'' 5)) = Some u1 \<and> wins u < wins u1 \<and>
      piBalance u1 =
        ((\<lambda>b. fadd b (payoutPerWinner ?m (winners_of ''away'' ?m)))
           ^^ length (filter (\<lambda>w. userId w = userId (stake ''bob'' ''away'' 5))
                        (winners_of ''away'' ?m)))
          (piBalance u)"
    using cr by blast
  then obtain u1 where "User ?s1 ''bob'' = Some u1"
      "wins (member ''bob'' 10 True) < wins u1" "piBalance u1 = 19"
    unfolding ub bob using v by auto
  then have "User ?s1 ''bob'' = Some u1 \<and> 0 < wins u1 \<and> piBalance u1 = 10 + 9"
    by (simp add: member_def)
  with m1 show ?thesis by blast
qed

subsection \<open>Joining\<close>

lemma join_challenge_accepts:
  assumes "User s (req_userId b) = Some u" and "isPremium u"
      and "Match s (req_matchId b) = Some m" and "result m = ''pending''"
      and "\<not> piBalance u < fee_of b"
  shows "join_challenge s b =
     (s\<lparr>User := (User s)(req_userId b \<mapsto> u\<lparr>piBalance := fsub (piBalance u) (fee_of b)\<rparr>),
        Match := (Match s)(req_matchId b \<mapsto>
          m\<lparr>pool := fadd (pool m) (fee_of b),
            entries := entries m @ [\<lparr>userId = req_userId b, prediction = req_prediction b,
                                    entryFee = fee_of b\<rparr>]\<rparr>)\<rparr>,
      Inr (fadd (pool m) (fee_of b)))"
  using assms by (simp add: join_challenge_def Let_def)

lemma join_challenge_rejects:
  "snd (join_challenge s b) = Inl e \<Longrightarrow> fst (join_challenge s b) = s"
  by (auto simp: join_challenge_def Let_def split: option.splits if_splits)

lemma fsub_nonneg: "\<not> b < f \<Longrightarrow> 0 \<le> fsub b f"
  by (simp add: fsub_def fl_nonneg)

lemma join_challenge_balances:
  assumes "balances_ok s"
  shows "balances_ok (fst (join_challenge s b))"
  using assms unfolding balances_ok_def join_challenge_def Let_def
  by (auto simp: fsub_nonneg split: option.splits if_splits)

lemma join_challenge_pools:
  assumes "pools_ok s"
  shows "pools_ok (fst (join_challenge s b))"
  using assms unfolding pools_ok_def join_challenge_def Let_def
  by (auto split: option.splits if_splits)

lemma post_join_numeric:
  assumes "numeric_fee b"
  shows "post_join_challenge beyond s b =
     join_challenge s
       \<lparr>req_userId = json_userId b, req_matchId = json_matchId b,
        req_prediction = json_prediction b,
        req_entryFee = (case json_entryFee b of JNumber fee \<Rightarrow> Some fee | _ \<Rightarrow> None)\<rparr>"
  using assms by (cases "json_entryFee b") (simp_all add: post_join_challenge_def numeric_fee_def)

lemma post_joins_balances:
  "balances_ok s \<Longrightarrow> \<forall>b \<in> set bs. numeric_fee b \<Longrightarrow> balances_ok (post_joins beyond s bs)"
  by (induction bs arbitrary: s) (simp_all add: post_join_numeric join_challenge_balances)

lemma post_joins_pools:
  "pools_ok s \<Longrightarrow> \<forall>b \<in> set bs. numeric_fee b \<Longrightarrow> pools_ok (post_joins beyond s bs)"
  by (induction bs arbitrary: s) (simp_all add: post_join_numeric join_challenge_pools)

text \<open>
  C4, as the code has it. Take a database where no balance is negative and every pool is
  the rounded running sum of the fees of its entries (the fees added to 0 in the order of
  the entries, each addition rounded to binary64). Every sequence of join requests whose
  fee is a number or is missing, and so every prefix of it (after every request), leads
  to a database where that is so again, whatever the handler does with fees that are not
  numbers (\<open>beyond\<close>).
\<close>

theorem numeric_joins_keep_ledger:
  assumes "balances_ok s" and "pools_ok s" and "\<forall>b \<in> set bs. numeric_fee b"
  shows "balances_ok (post_joins beyond s (take k bs)) \<and>
         pools_ok (post_joins beyond s (take k bs))"
proof -
  from assms(3) have "\<forall>b \<in> set (take k bs). numeric_fee b"
    by (auto dest: in_set_takeD)
  with assms(1,2) show ?thesis by (simp add: post_joins_balances post_joins_pools)
qed

text \<open>
  Alice joins for 6, is refused a second entry for 6 (she has 4 left), and bob joins
  without naming a fee, for 0.5: the pool is 6.5.
\<close>

theorem numeric_joins_keep_ledger_witness:
  "balances_ok fresh \<and> pools_ok fresh \<and>
   balances_ok (post_joins refused fresh
     (take 2 [json_req ''alice'' ''nba_1'' ''home'' (JNumber 6),
              json_req ''alice'' ''nba_1'' ''away'' (JNumber 6),
              json_req ''bob'' ''nba_1'' ''away'' Absent])) \<and>
   pools_ok (post_joins refused fresh
     (take 2 [json_req ''alice'' ''nba_1'' ''home'' (JNumber 6),
              json_req ''alice'' ''nba_1'' ''away'' (JNumber 6),
              json_req ''bob'' ''nba_1'' ''away'' Absent])) \<and>
   map_option piBalance
     (User (post_joins refused fresh
        [json_req ''alice'' ''nba_1'' ''home'' (JNumber 6),
         json_req ''alice'' ''nba_1'' ''away'' (JNumber 6),
         json_req ''bob'' ''nba_1'' ''away'' Absent]) ''alice'') = Some 4 \<and>
   map_option pool
     (Match (post_joins refused fresh
        [json_req ''alice'' ''nba_1'' ''home'' (JNumber 6),
         json_req ''alice'' ''nba_1'' ''away'' (JNumber 6),
         json_req ''bob'' ''nba_1'' ''away'' Absent]) ''nba_1'') = Some (13 / 2)"
proof -
  let ?bs = "[json_req ''alice'' ''nba_1'' ''home'' (JNumber 6),
              json_req ''alice'' ''nba_1'' ''away'' (JNumber 6),
              json_req ''bob'' ''nba_1'' ''away'' Absent]"
  have b: "balances_ok fresh"
    by (auto simp: balances_ok_def fresh_def example_defs split: if_splits)
  have p: "pools_ok fresh"
    by (auto simp: pools_ok_def fresh_def example_defs split: if_splits)
  have n: "\<forall>b \<in> set ?bs. numeric_fee b"
    by (simp add: numeric_fee_def json_req_def)
  have v: "map_option piBalance (User (post_joins refused fresh ?bs) ''alice'') = Some 4"
    by code_simp
  have w: "map_option pool (Match (post_joins refused fresh ?bs) ''nba_1'') = Some (13 / 2)"
    by code_simp
  from b p v w numeric_joins_keep_ledger [OF b p n, of refused 2]
  show ?thesis by blast
qed

text \<open>
  C4 as stated fails, in two ways. Alice joins with a fee of 0.1 and bob with a fee of
  0.2, the binary64 numbers of these names: the pool is then 0.30000000000000004, above
  the exact sum of the two fees recorded in the entries. And after two entries of alice
  for 5, bob joins with the string \<^verbatim>\<open>"5"\<close> as his fee: he pays 5, the entry records a
  fee of 5, and the pool goes from 10 to 105.
\<close>

theorem pool_not_exact_sum_counterexample:
  "map_option (\<lambda>m. map entryFee (entries m))
     (Match (joins fresh [join_req ''alice'' ''nba_1'' ''home'' (fl (1 / 10)),
                          join_req ''bob'' ''nba_1'' ''away'' (fl (2 / 10))]) ''nba_1'')
     = Some [fl (1 / 10), fl (2 / 10)] \<and>
   map_option pool
     (Match (joins fresh [join_req ''alice'' ''nba_1'' ''home'' (fl (1 / 10)),
                          join_req ''bob'' ''nba_1'' ''away'' (fl (2 / 10))]) ''nba_1'')
     = Some (1351079888211149 / 4503599627370496) \<and>
   sum_list [fl (1 / 10), fl (2 / 10)] < 1351079888211149 / 4503599627370496 \<and>
   map_option pool
     (Match (post_joins refused fresh
        [json_req ''alice'' ''nba_1'' ''home'' (JNumber 5),
         json_req ''alice'' ''nba_1'' ''home'' (JNumber 5),
         json_req ''bob'' ''nba_1'' ''home'' (JString ''5'')]) ''nba_1'')
     = Some 105 \<and>
   map_option (\<lambda>m. map entryFee (entries m))
     (Match (post_joins refused fresh
        [json_req ''alice'' ''nba_1'' ''home'' (JNumber 5),
         json_req ''alice'' ''nba_1'' ''home'' (JNumber 5),
         json_req ''bob'' ''nba_1'' ''home'' (JString ''5'')]) ''nba_1'')
     = Some [5, 5, 5] \<and>
   map_option piBalance
     (User (post_joins refused fresh
        [json_req ''alice'' ''nba_1'' ''home'' (JNumber 5),
         json_req ''alice'' ''nba_1'' ''home'' (JNumber 5),
         json_req ''bob'' ''nba_1'' ''home'' (JString ''5'')]) ''bob'')
     = Some 5"
proof -
  have "map_option (\<lambda>m. map entryFee (entries m))
     (Match (joins fresh [join_req ''alice'' ''nba_1'' ''home'' (fl (1 / 10)),
                          join_req ''bob'' ''nba_1'' ''away'' (fl (2 / 10))]) ''nba_1'')
     = Some [fl (1 / 10), fl (2 / 10)]"
    by code_simp
  moreover have "map_option pool
     (Match (joins fresh [join_req ''alice'' ''nba_1'' ''home'' (fl (1 / 10)),
                          join_req ''bob'' ''nba_1'' ''away'' (fl (2 / 10))]) ''nba_1'')
     = Some (1351079888211149 / 4503599627370496)"
    by code_simp
  moreover have "sum_list [fl (1 / 10), fl (2 / 10)] < 1351079888211149 / 4503599627370496"
    by code_simp
  moreover have "map_option pool
     (Match (post_joins refused fresh
        [json_req ''alice'' ''nba_1'' ''home'' (JNumber 5),
         json_req ''alice'' ''nba_1'' ''home'' (JNumber 5),
         json_req ''bob'' ''nba_1'' ''home'' (JString ''5'')]) ''nba_1'')
     = Some 105"
    by code_simp
  moreover have "map_option (\<lambda>m. map entryFee (entries m))
     (Match (post_joins refused fresh
        [json_req ''alice'' ''nba_1'' ''home'' (JNumber 5),
         json_req ''alice'' ''nba_1'' ''home'' (JNumber 5),
         json_req ''bob'' ''nba_1'' ''home'' (JString ''5'')]) ''nba_1'')
     = Some [5, 5, 5]"
    by code_simp
  moreover have "map_option piBalance
     (User (post_joins refused fresh
        [json_req ''alice'' ''nba_1'' ''home'' (JNumber 5),
         json_req ''alice'' ''nba_1'' ''home'' (JNumber 5),
         json_req ''bob'' ''nba_1'' ''home'' (JString ''5'')]) ''bob'')
     = Some 5"
    by code_simp
  ultimately show ?thesis by blast
qed

text \<open>
  C5, as the code has it. The handler checks, in this order: that the user exists and is
  premium, or else 403 \<open>Premium required\<close>; that the match exists and is pending, or
  else 400 \<open>Invalid match\<close> for both; that the balance is not below the fee, or else 400
  \<open>Insufficient balance\<close>. Every rejection leaves the database as it was. A request
  that passes the three checks is accepted whatever its prediction says.
\<close>

theorem join_checks_in_order:
  "(\<not> eligible s b \<longrightarrow>
      join_challenge s b = (s, Inl (HttpError 403 ''Premium required''))) \<and>
   (eligible s b \<and> \<not> open_pool s b \<longrightarrow>
      join_challenge s b = (s, Inl (HttpError 400 ''Invalid match''))) \<and>
   (eligible s b \<and> open_pool s b \<and> \<not> affordable s b \<longrightarrow>
      join_challenge s b = (s, Inl (HttpError 400 ''Insufficient balance''))) \<and>
   (eligible s b \<and> open_pool s b \<and> affordable s b \<longrightarrow>
      (\<forall>p. \<exists>total. snd (join_challenge s (b\<lparr>req_prediction := p\<rparr>)) = Inr total))"
  by (auto simp: join_challenge_def eligible_def open_pool_def affordable_def fee_of_def Let_def
           split: option.splits)

text \<open>
  One request for each case: dave is not premium (and the match does not exist), the
  fixture \<open>fb_7\<close> is settled, 11 is more than alice has, and \<open>banana\<close> is accepted.
\<close>

theorem join_checks_in_order_witness:
  "join_challenge fresh (join_req ''dave'' ''nba_404'' ''home'' 11)
     = (fresh, Inl (HttpError 403 ''Premium required'')) \<and>
   join_challenge fresh (join_req ''alice'' ''fb_7'' ''home'' 11)
     = (fresh, Inl (HttpError 400 ''Invalid match'')) \<and>
   join_challenge fresh (join_req ''alice'' ''nba_1'' ''home'' 11)
     = (fresh, Inl (HttpError 400 ''Insufficient balance'')) \<and>
   (\<exists>total. snd (join_challenge fresh (join_req ''alice'' ''nba_1'' ''banana'' 1)) = Inr total)"
proof -
  have 1: "\<not> eligible fresh (join_req ''dave'' ''nba_404'' ''home'' 11)"
    by (simp add: eligible_def fresh_def join_req_def example_defs)
  have 2: "eligible fresh (join_req ''alice'' ''fb_7'' ''home'' 11)
      \<and> \<not> open_pool fresh (join_req ''alice'' ''fb_7'' ''home'' 11)"
    by (simp add: eligible_def open_pool_def fresh_def join_req_def example_defs)
  have 3: "eligible fresh (join_req ''alice'' ''nba_1'' ''home'' 11)
      \<and> open_pool fresh (join_req ''alice'' ''nba_1'' ''home'' 11)
      \<and> \<not> affordable fresh (join_req ''alice'' ''nba_1'' ''home'' 11)"
    by (simp add: eligible_def open_pool_def affordable_def fee_of_def fresh_def join_req_def
          example_defs)
  have 4: "eligible fresh (join_req ''alice'' ''nba_1'' ''home'' 1)
      \<and> open_pool fresh (join_req ''alice'' ''nba_1'' ''home'' 1)
      \<and> affordable fresh (join_req ''alice'' ''nba_1'' ''home'' 1)"
    by (simp add: eligible_def open_pool_def affordable_def fee_of_def fresh_def join_req_def
          example_defs)
  have 5: "(join_req ''alice'' ''nba_1'' ''home'' 1)\<lparr>req_prediction := ''banana''\<rparr>
      = join_req ''alice'' ''nba_1'' ''banana'' 1"
    by (simp add: join_req_def)
  from 1 join_checks_in_order [of fresh "join_req ''dave'' ''nba_404'' ''home'' 11"]
  have a: "join_challenge fresh (join_req ''dave'' ''nba_404'' ''home'' 11)
     = (fresh, Inl (HttpError 403 ''Premium required''))" by blast
  from 2 join_checks_in_order [of fresh "join_req ''alice'' ''fb_7'' ''home'' 11"]
  have b: "join_challenge fresh (join_req ''alice'' ''fb_7'' ''home'' 11)
     = (fresh, Inl (HttpError 400 ''Invalid match''))" by blast
  from 3 join_checks_in_order [of fresh "join_req ''alice'' ''nba_1'' ''home'' 11"]
  have c: "join_challenge fresh (join_req ''alice'' ''nba_1'' ''home'' 11)
     = (fresh, Inl (HttpError 400 ''Insufficient balance''))" by blast
  from 4 join_checks_in_order [of fresh "join_req ''alice'' ''nba_1'' ''home'' 1"]
  have "\<forall>p. \<exists>total. snd (join_challenge fresh
      ((join_req ''alice'' ''nba_1'' ''home'' 1)\<lparr>req_prediction := p\<rparr>)) = Inr total" by blast
  then have "\<exists>total. snd (join_challenge fresh
      ((join_req ''alice'' ''nba_1'' ''home'' 1)\<lparr>req_prediction := ''banana''\<rparr>)) = Inr total" ..
  with 5 have d: "\<exists>total. snd (join_challenge fresh (join_req ''alice'' ''nba_1'' ''banana'' 1)) = Inr total"
    by simp
  from a b c d show ?thesis by blast
qed

text \<open>
  C5 as stated fails. For a user who is not premium and a match that does not exist the
  answer is the eligibility error, not that of the missing pool: eligibility is checked
  first. And a prediction that is no outcome of the match is accepted.
\<close>

theorem join_order_counterexample:
  "Match fresh ''nba_404'' = None \<and>
   join_challenge fresh (join_req ''dave'' ''nba_404'' ''home'' 1)
     = (fresh, Inl (HttpError 403 ''Premium required'')) \<and>
   snd (join_challenge fresh (join_req ''alice'' ''nba_1'' ''banana'' 1)) = Inr 1"
proof -
  have "Match fresh ''nba_404'' = None" by (simp add: fresh_def)
  moreover have "join_challenge fresh (join_req ''dave'' ''nba_404'' ''home'' 1)
     = (fresh, Inl (HttpError 403 ''Premium required''))"
    by (simp add: join_defs fresh_def example_defs)
  moreover have "snd (join_challenge fresh (join_req ''alice'' ''nba_1'' ''banana'' 1)) = Inr 1"
    by code_simp
  ultimately show ?thesis by blast
qed

text \<open>
  C7, as the code has it. The handler does not look for an earlier entry of the user: a
  user who already holds an entry in a pending match, is premium and can pay the fee is
  accepted again, and the new entry is appended to the entries of the match.
\<close>

theorem second_entry_accepted:
  assumes "User s uid = Some u" and "isPremium u"
      and "Match s mid = Some m" and "result m = ''pending''"
      and "fee \<le> piBalance u"
      and "uid \<in> userId ` set (entries m)"
  shows "\<exists>s1. join_challenge s (join_req uid mid p fee) = (s1, Inr (fadd (pool m) fee)) \<and>
           map_option entries (Match s1 mid)
             = Some (entries m @ [\<lparr>userId = uid, prediction = p, entryFee = fee\<rparr>])"
  using assms by (simp add: join_challenge_def fee_of_def join_req_def Let_def)

theorem second_entry_accepted_witness:
  "\<exists>s1. join_challenge (fst (join_challenge fresh (join_req ''alice'' ''nba_1'' ''home'' 1)))
           (join_req ''alice'' ''nba_1'' ''away'' 1) = (s1, Inr 2) \<and>
         map_option entries (Match s1 ''nba_1'')
           = Some [\<lparr>userId = ''alice'', prediction = ''home'', entryFee = 1\<rparr>,
                   \<lparr>userId = ''alice'', prediction = ''away'', entryFee = 1\<rparr>]"
proof -
  let ?s = "fst (join_challenge fresh (join_req ''alice'' ''nba_1'' ''home'' 1))"
  let ?u = "(member ''alice'' 10 True)\<lparr>piBalance := 9\<rparr>"
  let ?m = "(fixture ''nba'' ''pending'' [])\<lparr>pool := 1,
              entries := [\<lparr>userId = ''alice'', prediction = ''home'', entryFee = 1\<rparr>]\<rparr>"
  have 1: "User ?s ''alice'' = Some ?u" by code_simp
  have 2: "isPremium ?u" by (simp add: member_def)
  have 3: "Match ?s ''nba_1'' = Some ?m" by code_simp
  have 4: "result ?m = ''pending''" by (simp add: fixture_def)
  have 5: "1 \<le> piBalance ?u" by simp
  have 6: "''alice'' \<in> userId ` set (entries ?m)" by simp
  have v: "fadd (pool ?m) 1 = 2" by code_simp
  from second_entry_accepted [OF 1 2 3 4 5 6, of "''away''"] show ?thesis
    unfolding v by simp
qed

text \<open>
  C7 as stated fails: alice joins the same match twice, the second request is answered
  with the new pool of 2, and the match holds two entries of hers.
\<close>

theorem duplicate_entry_counterexample:
  "snd (join_challenge (fst (join_challenge fresh (join_req ''alice'' ''nba_1'' ''home'' 1)))
         (join_req ''alice'' ''nba_1'' ''home'' 1)) = Inr 2 \<and>
   map_option (\<lambda>m. map userId (entries m))
     (Match (joins fresh [join_req ''alice'' ''nba_1'' ''home'' 1, join_req ''alice'' ''nba_1'' ''home'' 1])
        ''nba_1'')
     = Some [''alice'', ''alice'']"
proof -
  have "snd (join_challenge (fst (join_challenge fresh (join_req ''alice'' ''nba_1'' ''home'' 1)))
         (join_req ''alice'' ''nba_1'' ''home'' 1)) = Inr 2"
    by code_simp
  moreover have "map_option (\<lambda>m. map userId (entries m))
     (Match (joins fresh [join_req ''alice'' ''nba_1'' ''home'' 1, join_req ''alice'' ''nba_1'' ''home'' 1])
        ''nba_1'')
     = Some [''alice'', ''alice'']"
    by code_simp
  ultimately show ?thesis by blast
qed

text \<open>
  C8, as the code has it. The handler does not look at the sign of the fee. A fee of zero
  or less from a premium user with a balance that is not negative, on a pending match,
  is accepted: the fee is subtracted from the balance and added to the pool.
\<close>

theorem nonpositive_fee_accepted:
  assumes "User s uid = Some u" and "isPremium u"
      and "Match s mid = Some m" and "result m = ''pending''"
      and "0 \<le> piBalance u" and "fee \<le> 0"
  shows "\<exists>s1 u1 m1. join_challenge s (join_req uid mid p fee) = (s1, Inr (fadd (pool m) fee)) \<and>
           User s1 uid = Some u1 \<and> piBalance u1 = fsub (piBalance u) fee \<and>
           Match s1 mid = Some m1 \<and> pool m1 = fadd (pool m) fee"
  using assms by (simp add: join_challenge_def fee_of_def join_req_def Let_def)

theorem nonpositive_fee_accepted_witness:
  "\<exists>s1 u1 m1. join_challenge fresh (join_req ''bob'' ''nba_1'' ''home'' (- 3)) = (s1, Inr (- 3)) \<and>
      User s1 ''bob'' = Some u1 \<and> piBalance u1 = 13 \<and>
      Match s1 ''nba_1'' = Some m1 \<and> pool m1 = - 3"
proof -
  have 1: "User fresh ''bob'' = Some (member ''bob'' 10 True)"
    by (simp add: fresh_def members_def)
  have 2: "isPremium (member ''bob'' 10 True)" by (simp add: member_def)
  have 3: "Match fresh ''nba_1'' = Some (fixture ''nba'' ''pending'' [])"
    by (simp add: fresh_def)
  have 4: "result (fixture ''nba'' ''pending'' []) = ''pending''" by (simp add: fixture_def)
  have 5: "0 \<le> piBalance (member ''bob'' 10 True)" by (simp add: member_def)
  have 6: "(- 3 :: rat) \<le> 0" by simp
  have v: "fadd (pool (fixture ''nba'' ''pending'' [])) (- 3) = - 3" by code_simp
  have w: "fsub (piBalance (member ''bob'' 10 True)) (- 3) = 13" by code_simp
  from nonpositive_fee_accepted [OF 1 2 3 4 5 6, of "''home''"] show ?thesis
    unfolding v w by simp
qed

text \<open>
  C8 as stated fails: a fee of 0 is accepted, and a fee of -3 is accepted and takes
  alice from 10 to 13 and the pool from 0 to -3.
\<close>

theorem invalid_amount_counterexample:
  "snd (join_challenge fresh (join_req ''alice'' ''nba_1'' ''home'' 0)) = Inr 0 \<and>
   snd (join_challenge fresh (join_req ''alice'' ''nba_1'' ''home'' (- 3))) = Inr (- 3) \<and>
   map_option piBalance
     (User (fst (join_challenge fresh (join_req ''alice'' ''nba_1'' ''home'' (- 3)))) ''alice'')
     = Some 13 \<and>
   map_option pool
     (Match (fst (join_challenge fresh (join_req ''alice'' ''nba_1'' ''home'' (- 3)))) ''nba_1'')
     = Some (- 3)"
proof -
  have "snd (join_challenge fresh (join_req ''alice'' ''nba_1'' ''home'' 0)) = Inr 0"
    by code_simp
  moreover have "snd (join_challenge fresh (join_req ''alice'' ''nba_1'' ''home'' (- 3)))
      = Inr (- 3)"
    by code_simp
  moreover have "map_option piBalance
     (User (fst (join_challenge fresh (join_req ''alice'' ''nba_1'' ''home'' (- 3)))) ''alice'')
     = Some 13"
    by code_simp
  moreover have "map_option pool
     (Match (fst (join_challenge fresh (join_req ''alice'' ''nba_1'' ''home'' (- 3)))) ''nba_1'')
     = Some (- 3)"
    by code_simp
  ultimately show ?thesis by blast
qed

subsection \<open>Subscribing\<close>

text \<open>
  C9 fails on the code. Alice holds no discount code. Her subscription with the code
  \<open>WIN10_1\<close> costs 0.45 instead of 0.5, and so does the next one with the same code:
  the price depends on the prefix of the code only, never on the codes of the user.
\<close>

theorem discount_without_owning_code:
  "map_option discountCodes (User fresh ''alice'') = Some [] \<and>
   subscribe_amount (Some ''WIN10_1'') = fl (45 / 100) \<and>
   map_option piBalance (User (fst (subscribe 0 fresh (redeem ''alice'' ''WIN10_1''))) ''alice'')
     = Some (fsub 10 (fl (45 / 100))) \<and>
   map_option piBalance
     (User (fst (subscribe 0 (fst (subscribe 0 fresh (redeem ''alice'' ''WIN10_1'')))
                  (redeem ''alice'' ''WIN10_1''))) ''alice'')
     = Some (fsub (fsub 10 (fl (45 / 100))) (fl (45 / 100)))"
proof -
  have "map_option discountCodes (User fresh ''alice'') = Some []" by code_simp
  moreover have "subscribe_amount (Some ''WIN10_1'') = fl (45 / 100)" by code_simp
  moreover have "map_option piBalance
      (User (fst (subscribe 0 fresh (redeem ''alice'' ''WIN10_1''))) ''alice'')
     = Some (fsub 10 (fl (45 / 100)))"
    by code_simp
  moreover have "map_option piBalance
     (User (fst (subscribe 0 (fst (subscribe 0 fresh (redeem ''alice'' ''WIN10_1'')))
                  (redeem ''alice'' ''WIN10_1''))) ''alice'')
     = Some (fsub (fsub 10 (fl (45 / 100))) (fl (45 / 100)))"
    by code_simp
  ultimately show ?thesis by blast
qed

end
